theory Spec2Isabelle
  imports Complex_Main
begin

section \<open>JavaScript values\<close>

text \<open>
  A JavaScript number is modelled as \<open>NaN\<close>, one of the two infinities or a finite value.
  Finite doubles are abstracted to rationals: the rounding of a finite result and the
  sign of zero are outside the model. Overflow is inside it: a finite operation whose
  exact result reaches the threshold \<open>2 ^ 1024 - 2 ^ 970\<close> (halfway between the largest
  double and \<open>2 ^ 1024\<close>) gives an infinity, as rounding to nearest does. \<open>NaN\<close> is kept
  because the source tests for it (\<open>isNaN\<close>) and because the idiom \<open>x || 0\<close> treats it
  like a missing value.
\<close>

datatype jsnum = NaN | PInf | NInf | Fin rat

definition overflowBound :: rat where
  "overflowBound = 2 ^ 1024 - 2 ^ 970"

definition overflow :: "rat \<Rightarrow> jsnum" where
  "overflow r =
     (if overflowBound \<le> r then PInf else if r \<le> - overflowBound then NInf else Fin r)"

fun js_neg :: "jsnum \<Rightarrow> jsnum" where
  "js_neg NaN = NaN"
| "js_neg PInf = NInf"
| "js_neg NInf = PInf"
| "js_neg (Fin a) = Fin (- a)"

fun js_add :: "jsnum \<Rightarrow> jsnum \<Rightarrow> jsnum" where
  "js_add (Fin a) (Fin b) = overflow (a + b)"
| "js_add NaN y = NaN"
| "js_add x NaN = NaN"
| "js_add PInf NInf = NaN"
| "js_add NInf PInf = NaN"
| "js_add PInf y = PInf"
| "js_add x PInf = PInf"
| "js_add NInf y = NInf"
| "js_add x NInf = NInf"

definition js_sub :: "jsnum \<Rightarrow> jsnum \<Rightarrow> jsnum" where
  "js_sub x y = js_add x (js_neg y)"

text \<open>
  The sign of an infinite product or quotient; an infinity times zero is \<open>NaN\<close>.
\<close>

definition signedInf :: "bool \<Rightarrow> jsnum" where
  "signedInf positive = (if positive then PInf else NInf)"

fun js_mul :: "jsnum \<Rightarrow> jsnum \<Rightarrow> jsnum" where
  "js_mul (Fin a) (Fin b) = overflow (a * b)"
| "js_mul NaN y = NaN"
| "js_mul x NaN = NaN"
| "js_mul PInf PInf = PInf"
| "js_mul PInf NInf = NInf"
| "js_mul NInf PInf = NInf"
| "js_mul NInf NInf = PInf"
| "js_mul PInf (Fin b) = (if b = 0 then NaN else signedInf (0 < b))"
| "js_mul NInf (Fin b) = (if b = 0 then NaN else signedInf (b < 0))"
| "js_mul (Fin a) PInf = (if a = 0 then NaN else signedInf (0 < a))"
| "js_mul (Fin a) NInf = (if a = 0 then NaN else signedInf (a < 0))"

text \<open>
  Division. A finite number over an infinity is 0, an infinity over an infinity and
  \<open>0 / 0\<close> are \<open>NaN\<close>, and a number other than 0 over 0 is an infinity, whose sign the
  model takes from the numerator (the zero being read as \<open>+0\<close>). The only division of the
  source stands under the guard \<open>budget > 0\<close>.
\<close>

fun js_div :: "jsnum \<Rightarrow> jsnum \<Rightarrow> jsnum" where
  "js_div (Fin a) (Fin b) =
     (if b = 0 then (if a = 0 then NaN else signedInf (0 < a)) else overflow (a / b))"
| "js_div NaN y = NaN"
| "js_div x NaN = NaN"
| "js_div (Fin a) PInf = Fin 0"
| "js_div (Fin a) NInf = Fin 0"
| "js_div PInf (Fin b) = signedInf (0 \<le> b)"
| "js_div NInf (Fin b) = signedInf (b < 0)"
| "js_div PInf PInf = NaN"
| "js_div PInf NInf = NaN"
| "js_div NInf PInf = NaN"
| "js_div NInf NInf = NaN"

fun js_abs :: "jsnum \<Rightarrow> jsnum" where
  "js_abs (Fin a) = Fin \<bar>a\<bar>"
| "js_abs NaN = NaN"
| "js_abs PInf = PInf"
| "js_abs NInf = PInf"

text \<open>\<open>x > y\<close>; comparisons with \<open>NaN\<close> are false.\<close>

fun js_gt :: "jsnum \<Rightarrow> jsnum \<Rightarrow> bool" where
  "js_gt (Fin a) (Fin b) = (b < a)"
| "js_gt NaN y = False"
| "js_gt x NaN = False"
| "js_gt NInf y = False"
| "js_gt x PInf = False"
| "js_gt PInf y = True"
| "js_gt x NInf = True"

fun isNaN :: "jsnum \<Rightarrow> bool" where
  "isNaN NaN = True"
| "isNaN PInf = False"
| "isNaN NInf = False"
| "isNaN (Fin a) = False"


section \<open>Calendar\<close>

text \<open>
  A \<open>Date\<close> that is not \<open>Invalid Date\<close>, read in local time: the calendar year, the
  month from 0 (January) to 11, the day of the month from 1 and the milliseconds since
  local midnight. The local time zone is taken to have a fixed offset (no daylight
  saving jumps), so a local day has 86400000 milliseconds. \<open>Invalid Date\<close> is \<open>None\<close>
  of \<open>jsdate option\<close>.
\<close>

record jsdate =
  year :: int
  month :: nat
  day :: nat
  time_ms :: int

definition isLeap :: "int \<Rightarrow> bool" where
  "isLeap y = ((y mod 4 = 0 \<and> y mod 100 \<noteq> 0) \<or> y mod 400 = 0)"

definition daysInMonth :: "int \<Rightarrow> nat \<Rightarrow> nat" where
  "daysInMonth y m =
     (if m = 1 then (if isLeap y then 29 else 28)
      else if m = 3 \<or> m = 5 \<or> m = 8 \<or> m = 10 then 30
      else 31)"

definition validDate :: "jsdate \<Rightarrow> bool" where
  "validDate d =
     (month d < 12 \<and> 1 \<le> day d \<and> day d \<le> daysInMonth (year d) (month d)
      \<and> 0 \<le> time_ms d \<and> time_ms d < 86400000)"

definition daysBeforeMonth :: "int \<Rightarrow> nat \<Rightarrow> nat" where
  "daysBeforeMonth y m = sum_list (map (daysInMonth y) [0..<m])"

text \<open>Days from 1970-01-01 to January 1 of year \<open>y\<close>.\<close>

definition daysBeforeYear :: "int \<Rightarrow> int" where
  "daysBeforeYear y =
     365 * (y - 1970) + ((y - 1) div 4 - 492) - ((y - 1) div 100 - 19)
       + ((y - 1) div 400 - 4)"

definition dayNumber :: "jsdate \<Rightarrow> int" where
  "dayNumber d =
     daysBeforeYear (year d) + int (daysBeforeMonth (year d) (month d)) + int (day d) - 1"

text \<open>\<open>getTime()\<close>, in local milliseconds; \<open>getDay()\<close>, 0 for Sunday (1970-01-01 was a Thursday).\<close>

definition getTime :: "jsdate \<Rightarrow> int" where
  "getTime d = dayNumber d * 86400000 + time_ms d"

definition getDay :: "jsdate \<Rightarrow> nat" where
  "getDay d = nat ((dayNumber d + 4) mod 7)"

definition nextDay :: "jsdate \<Rightarrow> jsdate" where
  "nextDay d =
     (if day d < daysInMonth (year d) (month d) then d\<lparr>day := day d + 1\<rparr>
      else if month d < 11 then d\<lparr>month := month d + 1, day := 1\<rparr>
      else d\<lparr>year := year d + 1, month := 0, day := 1\<rparr>)"

definition prevDay :: "jsdate \<Rightarrow> jsdate" where
  "prevDay d =
     (if 1 < day d then d\<lparr>day := day d - 1\<rparr>
      else if 0 < month d
           then d\<lparr>month := month d - 1, day := daysInMonth (year d) (month d - 1)\<rparr>
      else d\<lparr>year := year d - 1, month := 11, day := 31\<rparr>)"

subsection \<open>The functions of date-fns the source calls\<close>

text \<open>
  \<open>addDays\<close> is \<open>setDate(getDate() + amount)\<close>; \<open>addMonths\<close> moves to the month
  \<open>amount\<close> months away and keeps the day of the month unless that month is shorter,
  in which case it takes its last day. The time of day is kept.
\<close>

definition addDays :: "jsdate \<Rightarrow> int \<Rightarrow> jsdate" where
  "addDays d amount =
     (if 0 \<le> amount then (nextDay ^^ nat amount) d else (prevDay ^^ nat (- amount)) d)"

definition addWeeks :: "jsdate \<Rightarrow> int \<Rightarrow> jsdate" where
  "addWeeks d amount = addDays d (amount * 7)"

definition addMonths :: "jsdate \<Rightarrow> int \<Rightarrow> jsdate" where
  "addMonths d amount =
     (let total = year d * 12 + int (month d) + amount;
          y = total div 12;
          m = nat (total mod 12)
      in d\<lparr>year := y, month := m, day := min (day d) (daysInMonth y m)\<rparr>)"

definition subMonths :: "jsdate \<Rightarrow> int \<Rightarrow> jsdate" where
  "subMonths d amount = addMonths d (- amount)"

definition addYears :: "jsdate \<Rightarrow> int \<Rightarrow> jsdate" where
  "addYears d amount = addMonths d (amount * 12)"

text \<open>The week starts on Sunday (the default locale of date-fns).\<close>

definition startOfWeek :: "jsdate \<Rightarrow> jsdate" where
  "startOfWeek d = addDays (d\<lparr>time_ms := 0\<rparr>) (- int (getDay d))"

definition endOfWeek :: "jsdate \<Rightarrow> jsdate" where
  "endOfWeek d = addDays (d\<lparr>time_ms := 86399999\<rparr>) (6 - int (getDay d))"

definition startOfMonth :: "jsdate \<Rightarrow> jsdate" where
  "startOfMonth d = d\<lparr>day := 1, time_ms := 0\<rparr>"

definition endOfMonth :: "jsdate \<Rightarrow> jsdate" where
  "endOfMonth d = d\<lparr>day := daysInMonth (year d) (month d), time_ms := 86399999\<rparr>"

definition startOfYear :: "jsdate \<Rightarrow> jsdate" where
  "startOfYear d = d\<lparr>month := 0, day := 1, time_ms := 0\<rparr>"

definition endOfYear :: "jsdate \<Rightarrow> jsdate" where
  "endOfYear d = d\<lparr>month := 11, day := 31, time_ms := 86399999\<rparr>"

text \<open>Errors thrown by the source and by the library functions it calls.\<close>

datatype js_error =
    RangeError
  | TypeError
  | SyntaxError
  | KeyNotConfigured
  | ApiError nat string
  | OtherError string

text \<open>
  \<open>eachDayOfInterval\<close> and \<open>eachMonthOfInterval\<close> throw a \<open>RangeError\<close> when the
  start is after the end. Otherwise they list the days (months) from the start, at
  midnight (at midnight of the first of the month), as long as that instant is not after
  the end: one per calendar day (month) from the start's to the end's.
\<close>

fun daysFrom :: "jsdate \<Rightarrow> nat \<Rightarrow> jsdate list" where
  "daysFrom d 0 = []"
| "daysFrom d (Suc n) = d # daysFrom (nextDay d) n"

definition eachDayOfInterval :: "jsdate \<Rightarrow> jsdate \<Rightarrow> js_error + jsdate list" where
  "eachDayOfInterval start end =
     (if getTime start \<le> getTime end
      then Inr (daysFrom (start\<lparr>time_ms := 0\<rparr>) (nat (dayNumber end - dayNumber start + 1)))
      else Inl RangeError)"

definition nextMonth :: "jsdate \<Rightarrow> jsdate" where
  "nextMonth d =
     (if month d < 11 then d\<lparr>month := month d + 1\<rparr>
      else d\<lparr>year := year d + 1, month := 0\<rparr>)"

fun monthsFrom :: "jsdate \<Rightarrow> nat \<Rightarrow> jsdate list" where
  "monthsFrom d 0 = []"
| "monthsFrom d (Suc n) = d # monthsFrom (nextMonth d) n"

definition eachMonthOfInterval :: "jsdate \<Rightarrow> jsdate \<Rightarrow> js_error + jsdate list" where
  "eachMonthOfInterval start end =
     (if getTime start \<le> getTime end
      then Inr (monthsFrom (start\<lparr>day := 1, time_ms := 0\<rparr>)
             (nat ((year end * 12 + int (month end)) - (year start * 12 + int (month start)) + 1)))
      else Inl RangeError)"

text \<open>\<open>format(date, 'EEE')\<close> and \<open>format(date, 'MMM')\<close> on a valid date.\<close>

definition dayNames :: "string list" where
  "dayNames = [''Sun'', ''Mon'', ''Tue'', ''Wed'', ''Thu'', ''Fri'', ''Sat'']"

definition monthNames :: "string list" where
  "monthNames = [''Jan'', ''Feb'', ''Mar'', ''Apr'', ''May'', ''Jun'',
                 ''Jul'', ''Aug'', ''Sep'', ''Oct'', ''Nov'', ''Dec'']"

definition formatEEE :: "jsdate \<Rightarrow> string" where
  "formatEEE d = dayNames ! getDay d"

definition formatMMM :: "jsdate \<Rightarrow> string" where
  "formatMMM d = monthNames ! (month d mod 12)"

section \<open>Transactions and the runtime\<close>

datatype txtype = Income | Expense | Investment

record transaction =
  tx_id :: string
  date :: string
  amount :: jsnum
  category :: string
  tx_type :: txtype
  tx_note :: "string option"

text \<open>
  What the source reads from its JavaScript runtime: the current instant
  (\<open>new Date()\<close>; one reading serves a whole computation), the parser of date strings
  (\<open>new Date(s)\<close>, \<open>None\<close> for \<open>Invalid Date\<close>), the conversion of a finite number
  to a string (\<open>String(n)\<close>, which depends on the double behind the rational) and of a
  string to a number (\<open>Number(s)\<close>), the text that a member of \<open>Object.prototype\<close>
  converts to (the source text of a built-in function is chosen by the engine), and the
  order in which \<open>Array.prototype.sort\<close> leaves an array when the comparator is not a
  consistent order (the standard leaves that order to the engine).
\<close>

record runtime =
  now :: jsdate
  parseDate :: "string \<Rightarrow> jsdate option"
  numToString :: "rat \<Rightarrow> string"
  stringToNumber :: "string \<Rightarrow> jsnum"
  objectText :: "string \<Rightarrow> string"
  engineSort ::
    "(transaction \<Rightarrow> transaction \<Rightarrow> int) \<Rightarrow> transaction list \<Rightarrow> transaction list"

fun js_toString :: "runtime \<Rightarrow> jsnum \<Rightarrow> string" where
  "js_toString rt NaN = ''NaN''"
| "js_toString rt PInf = ''Infinity''"
| "js_toString rt NInf = ''-Infinity''"
| "js_toString rt (Fin a) = numToString rt a"

text \<open>
  A value read from a dynamically keyed object: a number, a string, or the member of
  \<open>Object.prototype\<close> that the key names (\<open>JObj k\<close>: a built-in function such as
  \<open>Object.prototype.toString\<close>, or \<open>Object.prototype\<close> itself for the key \<open>__proto__\<close>).
\<close>

datatype jsval = JNum jsnum | JStr string | JObj string

text \<open>
  The properties every plain object inherits from \<open>Object.prototype\<close> in a standard
  environment.
\<close>

definition prototypeNames :: "string list" where
  "prototypeNames =
     [''constructor'', ''__defineGetter__'', ''__defineSetter__'', ''hasOwnProperty'',
      ''__lookupGetter__'', ''__lookupSetter__'', ''isPrototypeOf'', ''propertyIsEnumerable'',
      ''toString'', ''valueOf'', ''__proto__'', ''toLocaleString'']"

definition inheritedName :: "string \<Rightarrow> bool" where
  "inheritedName k = (k \<in> set prototypeNames)"

text \<open>
  The operators the source applies to such values. \<open>x || 0\<close> keeps a truthy \<open>x\<close>: a
  missing property (\<open>undefined\<close>, here \<open>None\<close>), \<open>NaN\<close>, \<open>0\<close> and the empty string are falsy,
  every object is truthy. \<open>+\<close> adds two numbers and concatenates in every other case,
  an object being converted to its text. Where a number is required (\<open>Math.abs\<close>, \<open>-\<close>,
  \<open>/\<close>, \<open>>\<close> against a number), a string is converted by \<open>Number\<close> and an object through
  its text.
\<close>

fun truthy :: "jsval option \<Rightarrow> bool" where
  "truthy None = False"
| "truthy (Some (JNum NaN)) = False"
| "truthy (Some (JNum PInf)) = True"
| "truthy (Some (JNum NInf)) = True"
| "truthy (Some (JNum (Fin a))) = (a \<noteq> 0)"
| "truthy (Some (JStr s)) = (s \<noteq> [])"
| "truthy (Some (JObj k)) = True"

definition or0 :: "jsval option \<Rightarrow> jsval" where
  "or0 v = (case v of None \<Rightarrow> JNum (Fin 0) | Some x \<Rightarrow> if truthy v then x else JNum (Fin 0))"

fun jsToString :: "runtime \<Rightarrow> jsval \<Rightarrow> string" where
  "jsToString rt (JNum n) = js_toString rt n"
| "jsToString rt (JStr s) = s"
| "jsToString rt (JObj k) = objectText rt k"

fun js_plus :: "runtime \<Rightarrow> jsval \<Rightarrow> jsval \<Rightarrow> jsval" where
  "js_plus rt (JNum a) (JNum b) = JNum (js_add a b)"
| "js_plus rt x y = JStr (jsToString rt x @ jsToString rt y)"

fun toNumber :: "runtime \<Rightarrow> jsval \<Rightarrow> jsnum" where
  "toNumber rt (JNum n) = n"
| "toNumber rt (JStr s) = stringToNumber rt s"
| "toNumber rt (JObj k) = stringToNumber rt (objectText rt k)"

text \<open>
  Insertion-ordered string-keyed containers (the own properties of an object, a \<open>Map\<close>):
  writing an existing key replaces its value in place, a new key goes last.
\<close>

fun assoc_set :: "('k \<times> 'v) list \<Rightarrow> 'k \<Rightarrow> 'v \<Rightarrow> ('k \<times> 'v) list" where
  "assoc_set [] k v = [(k, v)]"
| "assoc_set ((k', v') # m) k v =
     (if k' = k then (k, v) # m else (k', v') # assoc_set m k v)"

text \<open>
  A plain object (\<open>{}\<close>, \<open>{ name: label }\<close>) is the list of its own properties.
  Reading \<open>obj[k]\<close> finds an own property first and the inherited member otherwise.
  Writing \<open>obj[k] = v\<close> sets an own property, except for the key \<open>__proto__\<close>, an
  accessor of \<open>Object.prototype\<close> whose setter ignores a number or a string (the source
  assigns results of \<open>+\<close> only, which are numbers or strings).
\<close>

type_synonym jsobj = "(string \<times> jsval) list"

definition getProp :: "jsobj \<Rightarrow> string \<Rightarrow> jsval option" where
  "getProp obj k =
     (case map_of obj k of
        Some v \<Rightarrow> Some v
      | None \<Rightarrow> if inheritedName k then Some (JObj k) else None)"

definition setProp :: "jsobj \<Rightarrow> string \<Rightarrow> jsval \<Rightarrow> jsobj" where
  "setProp obj k v = (if k = ''__proto__'' then obj else assoc_set obj k v)"

text \<open>A \<open>forEach\<close> whose callback can throw: the first exception ends the loop.\<close>

fun forEachE :: "('a \<Rightarrow> 's \<Rightarrow> js_error + 's) \<Rightarrow> 'a list \<Rightarrow> 's \<Rightarrow> js_error + 's" where
  "forEachE f [] s = Inr s"
| "forEachE f (x # xs) s = (case f x s of Inl e \<Rightarrow> Inl e | Inr s' \<Rightarrow> forEachE f xs s')"

section \<open>Statistics view\<close>

subsection \<open>generateShades\<close>

text \<open>
  \<open>parseInt(s, 16)\<close>: leading white space and a sign are skipped, then a prefix
  \<open>0x\<close> or \<open>0X\<close>, and the longest run of hexadecimal digits is read; no digit gives
  \<open>NaN\<close>, and a value beyond the range of the doubles an infinity.
\<close>

definition isWhiteSpace :: "char \<Rightarrow> bool" where
  "isWhiteSpace c = ((of_char c :: nat) \<in> {9, 10, 11, 12, 13, 32, 160})"









subsection \<open>sortedTransactions\<close>

text \<open>
  The comparator \<open>new Date(a.date).getTime() - new Date(b.date).getTime()\<close>; with an
  invalid date the difference is \<open>NaN\<close>, which \<open>sort\<close> reads as 0.
\<close>

definition compareByDate :: "runtime \<Rightarrow> transaction \<Rightarrow> transaction \<Rightarrow> int" where
  "compareByDate rt a b =
     (case parseDate rt (date a) of
        None \<Rightarrow> 0
      | Some x \<Rightarrow> (case parseDate rt (date b) of None \<Rightarrow> 0 | Some y \<Rightarrow> getTime x - getTime y))"

fun insertBy :: "('a \<Rightarrow> 'a \<Rightarrow> int) \<Rightarrow> 'a \<Rightarrow> 'a list \<Rightarrow> 'a list" where
  "insertBy cmp x [] = [x]"
| "insertBy cmp x (y # ys) = (if cmp x y \<le> 0 then x # y # ys else y # insertBy cmp x ys)"

definition sortBy :: "('a \<Rightarrow> 'a \<Rightarrow> int) \<Rightarrow> 'a list \<Rightarrow> 'a list" where
  "sortBy cmp xs = foldr (insertBy cmp) xs []"

text \<open>
  \<open>Array.prototype.sort\<close> on the copy. When every date is readable the comparator is a
  consistent order (the order of the instants), and the standard fixes the result: the
  elements in ascending order, equal ones in their original order, which is what the
  stable insertion sort \<open>sortBy\<close> computes. As soon as one date is unreadable the
  comparator answers 0 against that element whatever the other dates are, which in
  general is not a consistent order; the standard then leaves the order to the engine,
  and the model leaves it to the runtime whenever a date is unreadable.
\<close>

definition readable :: "runtime \<Rightarrow> transaction \<Rightarrow> bool" where
  "readable rt t = (parseDate rt (date t) \<noteq> None)"

definition sortByDate :: "runtime \<Rightarrow> transaction list \<Rightarrow> transaction list" where
  "sortByDate rt xs =
     (if list_all (readable rt) xs then sortBy (compareByDate rt) xs
      else engineSort rt (compareByDate rt) xs)"

definition sortedTransactions :: "runtime \<Rightarrow> transaction list \<Rightarrow> transaction list" where
  "sortedTransactions rt transactions = sortByDate rt transactions"

subsection \<open>netAssetData\<close>

record balance_point =
  point_date :: string
  balance :: jsnum

record net_asset =
  wealthBalance :: jsnum
  investmentBalance :: jsnum
  wealthData :: "balance_point list"
  investmentData :: "balance_point list"

text \<open>
  The callback of the \<open>forEach\<close>. The test \<open>tx &&\<close> is always true on an array of
  transaction objects; \<open>!isNaN(tx.amount)\<close> is the guard that remains.
\<close>

definition netAssetStep :: "transaction \<Rightarrow> net_asset \<Rightarrow> net_asset" where
  "netAssetStep tx s =
     (if \<not> isNaN (amount tx) then
        (let wb = (if tx_type tx = Income \<or> tx_type tx = Expense
                   then js_add (wealthBalance s) (amount tx) else wealthBalance s);
             ib = (if tx_type tx = Investment
                   then js_add (investmentBalance s) (js_abs (amount tx)) else investmentBalance s)
         in \<lparr>wealthBalance = wb, investmentBalance = ib,
             wealthData = wealthData s @ [\<lparr>point_date = date tx, balance = wb\<rparr>],
             investmentData = investmentData s @ [\<lparr>point_date = date tx, balance = ib\<rparr>]\<rparr>)
      else s)"

definition netAssetData :: "transaction list \<Rightarrow> net_asset" where
  "netAssetData sortedTxs =
     fold netAssetStep sortedTxs
       \<lparr>wealthBalance = Fin 0, investmentBalance = Fin 0, wealthData = [], investmentData = []\<rparr>"

subsection \<open>spendingChartData\<close>

datatype period = W | M | SixM | Y

text \<open>A bucket entry: an object with the property \<open>name\<close>, later \<open>total\<close> and one property per category.\<close>

type_synonym entry = "(string \<times> jsval) list"

record chart_setup =
  interval_start :: jsdate
  interval_end :: jsdate
  dataPoints :: "js_error + jsdate list"
  formatLabel :: "jsdate \<Rightarrow> string"

text \<open>The \<open>switch\<close> on the period; \<open>None\<close> is its \<open>default\<close> branch, which returns \<open>[]\<close>.\<close>

definition periodSetup :: "runtime \<Rightarrow> period \<Rightarrow> int \<Rightarrow> chart_setup option" where
  "periodSetup rt period dateOffset =
     (case period of
        W \<Rightarrow>
          (let weekDate = addWeeks (now rt) dateOffset;
               start = startOfWeek weekDate; end = endOfWeek weekDate
           in Some \<lparr>interval_start = start, interval_end = end,
                    dataPoints = eachDayOfInterval start end, formatLabel = formatEEE\<rparr>)
      | SixM \<Rightarrow>
          (let sixMonthsDate = addMonths (now rt) (dateOffset * 6);
               start = startOfMonth (subMonths sixMonthsDate 5); end = endOfMonth sixMonthsDate
           in Some \<lparr>interval_start = start, interval_end = end,
                    dataPoints = eachMonthOfInterval start end, formatLabel = formatMMM\<rparr>)
      | Y \<Rightarrow>
          (let yearDate = addYears (now rt) dateOffset;
               start = startOfYear yearDate; end = endOfYear yearDate
           in Some \<lparr>interval_start = start, interval_end = end,
                    dataPoints = eachMonthOfInterval start end, formatLabel = formatMMM\<rparr>)
      | M \<Rightarrow> None)"

definition relevantTx :: "runtime \<Rightarrow> chart_setup \<Rightarrow> transaction \<Rightarrow> bool" where
  "relevantTx rt c tx =
     (if date tx = [] then False
      else (case parseDate rt (date tx) of
              None \<Rightarrow> False
            | Some txDate \<Rightarrow>
                getTime (interval_start c) \<le> getTime txDate
                \<and> getTime txDate \<le> getTime (interval_end c)
                \<and> tx_type tx = Expense))"

definition seedBuckets :: "(jsdate \<Rightarrow> string) \<Rightarrow> jsdate list \<Rightarrow> (string \<times> entry) list" where
  "seedBuckets fmt points =
     fold (\<lambda>point dataMap. assoc_set dataMap (fmt point) [(''name'', JStr (fmt point))]) points []"

text \<open>
  The two assignments on the entry of a transaction's bucket:
  \<open>entry[tx.category] = (entry[tx.category] || 0) + Math.abs(tx.amount)\<close> and
  \<open>entry.total = (entry.total || 0) + Math.abs(tx.amount)\<close>.
\<close>

definition addToEntry :: "runtime \<Rightarrow> transaction \<Rightarrow> entry \<Rightarrow> entry" where
  "addToEntry rt tx entry =
     (let e1 = setProp entry (category tx)
                 (js_plus rt (or0 (getProp entry (category tx))) (JNum (js_abs (amount tx))))
      in setProp e1 ''total''
           (js_plus rt (or0 (getProp e1 ''total'')) (JNum (js_abs (amount tx)))))"

text \<open>
  The callback of the second \<open>forEach\<close>. \<open>format\<close> throws a \<open>RangeError\<close> on an invalid
  date (the filter before it lets none through).
\<close>

definition addToBucket ::
  "runtime \<Rightarrow> (jsdate \<Rightarrow> string) \<Rightarrow> transaction \<Rightarrow> (string \<times> entry) list
     \<Rightarrow> js_error + (string \<times> entry) list" where
  "addToBucket rt fmt tx dataMap =
     (case parseDate rt (date tx) of
        None \<Rightarrow> Inl RangeError
      | Some d \<Rightarrow>
          (case map_of dataMap (fmt d) of
             None \<Rightarrow> Inr dataMap
           | Some entry \<Rightarrow> Inr (assoc_set dataMap (fmt d) (addToEntry rt tx entry))))"

definition spendingChartData ::
  "runtime \<Rightarrow> period \<Rightarrow> int \<Rightarrow> transaction list \<Rightarrow> js_error + entry list" where
  "spendingChartData rt period dateOffset sortedTxs =
     (case periodSetup rt period dateOffset of
        None \<Rightarrow> Inr []
      | Some c \<Rightarrow>
          (case dataPoints c of
             Inl e \<Rightarrow> Inl e
           | Inr points \<Rightarrow>
               (case forEachE (addToBucket rt (formatLabel c))
                       (filter (relevantTx rt c) sortedTxs)
                       (seedBuckets (formatLabel c) points) of
                  Inl e \<Rightarrow> Inl e
                | Inr dataMap \<Rightarrow> Inr (map snd dataMap))))"

subsection \<open>flowOverTimeData\<close>

record flow_entry =
  name :: string
  income :: jsnum
  expense :: jsnum
  investment :: jsnum

definition seedMonths :: "jsdate list \<Rightarrow> (string \<times> flow_entry) list" where
  "seedMonths yearMonths =
     fold (\<lambda>m monthlyDataMap.
             assoc_set monthlyDataMap (formatMMM m)
               \<lparr>name = formatMMM m, income = Fin 0, expense = Fin 0, investment = Fin 0\<rparr>)
          yearMonths []"

definition addToMonth :: "transaction \<Rightarrow> flow_entry \<Rightarrow> flow_entry" where
  "addToMonth tx monthEntry =
     (if tx_type tx = Income
        then monthEntry\<lparr>income := js_add (income monthEntry) (amount tx)\<rparr>
      else if tx_type tx = Expense
        then monthEntry\<lparr>expense := js_add (expense monthEntry) (js_abs (amount tx))\<rparr>
      else if tx_type tx = Investment
        then monthEntry\<lparr>investment := js_add (investment monthEntry) (js_abs (amount tx))\<rparr>
      else monthEntry)"

text \<open>
  The callback of the \<open>forEach\<close>: \<open>format(new Date(curr.date), 'MMM')\<close> throws a
  \<open>RangeError\<close> when the date is invalid; no test of the year is made.
\<close>

definition flowStep ::
  "runtime \<Rightarrow> transaction \<Rightarrow> (string \<times> flow_entry) list \<Rightarrow> js_error + (string \<times> flow_entry) list" where
  "flowStep rt tx monthlyDataMap =
     (case parseDate rt (date tx) of
        None \<Rightarrow> Inl RangeError
      | Some d \<Rightarrow>
          (case map_of monthlyDataMap (formatMMM d) of
             None \<Rightarrow> Inr monthlyDataMap
           | Some monthEntry \<Rightarrow>
               Inr (assoc_set monthlyDataMap (formatMMM d) (addToMonth tx monthEntry))))"

definition flowOverTimeData :: "runtime \<Rightarrow> transaction list \<Rightarrow> js_error + flow_entry list" where
  "flowOverTimeData rt sortedTxs =
     (case eachMonthOfInterval (startOfYear (now rt)) (endOfYear (now rt)) of
        Inl e \<Rightarrow> Inl e
      | Inr yearMonths \<Rightarrow>
          (case forEachE (flowStep rt) sortedTxs (seedMonths yearMonths) of
             Inl e \<Rightarrow> Inl e
           | Inr monthlyDataMap \<Rightarrow> Inr (map snd monthlyDataMap)))"

subsection \<open>The arrays behind the three series\<close>

text \<open>
  Arrays are objects: \<open>sortedTransactions\<close> is \<open>[...transactions].sort(cmp)\<close>, where
  the spread makes a new array with the same elements and \<open>sort\<close> (here with the date
  comparator) sorts the array it is called on, in place, and returns that same array.
  To tell which array is written, the arrays of transactions live in a heap, addressed
  by their index; \<open>forEach\<close> and \<open>filter\<close> only read the array they are called on
  (\<open>filter\<close> returns a new one).
\<close>

type_synonym heap = "transaction list list"

definition spread :: "heap \<Rightarrow> nat \<Rightarrow> heap \<times> nat" where
  "spread h a = (h @ [h ! a], length h)"

definition sortInPlace :: "runtime \<Rightarrow> heap \<Rightarrow> nat \<Rightarrow> heap \<times> nat" where
  "sortInPlace rt h a = (h[a := sortByDate rt (h ! a)], a)"

definition sortedTransactionsRef :: "runtime \<Rightarrow> heap \<Rightarrow> nat \<Rightarrow> heap \<times> nat" where
  "sortedTransactionsRef rt h transactions =
     (let (h1, copy) = spread h transactions
      in sortInPlace rt h1 copy)"

record statistics =
  netAsset :: net_asset
  spendingChart :: "js_error + entry list"
  flowOverTime :: "js_error + flow_entry list"

definition statisticsData ::
  "runtime \<Rightarrow> period \<Rightarrow> int \<Rightarrow> heap \<Rightarrow> nat \<Rightarrow> heap \<times> statistics" where
  "statisticsData rt period dateOffset h transactions =
     (let (h', sortedRef) = sortedTransactionsRef rt h transactions;
          sortedTxs = h' ! sortedRef
      in (h', \<lparr>netAsset = netAssetData sortedTxs,
                spendingChart = spendingChartData rt period dateOffset sortedTxs,
                flowOverTime = flowOverTimeData rt sortedTxs\<rparr>))"

section \<open>Budget view\<close>

text \<open>
  The body of \<open>renderBudgetTable\<close> that computes: the two \<open>reduce\<close> calls, the
  remaining amount, the colour test of the "Tracked vs Budget" line, and per category
  the three constants of the row. \<open>categoryBudgets\<close> is the object of the settings.
\<close>

definition totalTracked :: "runtime \<Rightarrow> jsobj \<Rightarrow> string list \<Rightarrow> jsval" where
  "totalTracked rt spendingByCategory categories =
     fold (\<lambda>cat sum. js_plus rt sum (or0 (getProp spendingByCategory cat))) categories
       (JNum (Fin 0))"

definition totalBudget :: "runtime \<Rightarrow> jsobj \<Rightarrow> string list \<Rightarrow> jsval" where
  "totalBudget rt categoryBudgets categories =
     fold (\<lambda>cat sum. js_plus rt sum (or0 (getProp categoryBudgets cat))) categories
       (JNum (Fin 0))"

definition totalRemaining :: "runtime \<Rightarrow> jsobj \<Rightarrow> jsobj \<Rightarrow> string list \<Rightarrow> jsnum" where
  "totalRemaining rt spendingByCategory categoryBudgets categories =
     js_sub (toNumber rt (totalBudget rt categoryBudgets categories))
            (js_abs (toNumber rt (totalTracked rt spendingByCategory categories)))"

definition overBudget :: "runtime \<Rightarrow> jsobj \<Rightarrow> jsobj \<Rightarrow> string list \<Rightarrow> bool" where
  "overBudget rt spendingByCategory categoryBudgets categories =
     js_gt (js_abs (toNumber rt (totalTracked rt spendingByCategory categories)))
           (toNumber rt (totalBudget rt categoryBudgets categories))"

record budget_row =
  row_category :: string
  tracked :: jsval
  budget :: jsval
  percent :: jsnum

definition budgetRow :: "runtime \<Rightarrow> jsobj \<Rightarrow> jsobj \<Rightarrow> string \<Rightarrow> budget_row" where
  "budgetRow rt spendingByCategory categoryBudgets cat =
     (let tracked = or0 (getProp spendingByCategory cat);
          budget = or0 (getProp categoryBudgets cat);
          percent = (if js_gt (toNumber rt budget) (Fin 0)
                     then js_mul (js_div (js_abs (toNumber rt tracked)) (toNumber rt budget))
                            (Fin 100)
                     else Fin 0)
      in \<lparr>row_category = cat, tracked = tracked, budget = budget, percent = percent\<rparr>)"

definition budgetRows :: "runtime \<Rightarrow> jsobj \<Rightarrow> jsobj \<Rightarrow> string list \<Rightarrow> budget_row list" where
  "budgetRows rt spendingByCategory categoryBudgets categories =
     map (budgetRow rt spendingByCategory categoryBudgets) categories"

text \<open>
  The \<open>reduce\<close> over the transactions that builds \<open>spendingByCategory\<close>, a plain object
  keyed by category. With an invalid date \<open>getMonth()\<close> is \<open>NaN\<close>, which equals no
  month, so the transaction is skipped.
\<close>

definition spendingByCategory :: "runtime \<Rightarrow> transaction list \<Rightarrow> jsobj" where
  "spendingByCategory rt transactions =
     fold (\<lambda>t acc.
             case parseDate rt (date t) of
               None \<Rightarrow> acc
             | Some d \<Rightarrow>
                 if month d = month (now rt) \<and> year d = year (now rt)
                 then setProp acc (category t)
                        (js_plus rt (or0 (getProp acc (category t))) (JNum (amount t)))
                 else acc)
          transactions []"

section \<open>The chat-completion service\<close>

datatype role = User | Assistant | System

record message =
  role :: role
  content :: string

record call_options =
  opt_model :: "string option"
  opt_max_tokens :: "jsnum option"
  opt_temperature :: "jsnum option"
  opt_stream :: "bool option"

text \<open>The request handed to \<open>fetch\<close>: the headers that vary and the payload.\<close>

record request =
  authorization :: string
  referer :: string
  req_model :: string
  req_messages :: "message list"
  req_max_tokens :: jsnum
  req_temperature :: jsnum
  req_stream :: bool

text \<open>
  The body of a response, as far as the source reads it: the \<open>content\<close> of each choice.
\<close>

record api_response =
  choices :: "string list"

record http_response =
  ok :: bool
  status :: nat
  body_text :: "js_error + string"
  body_json :: "js_error + api_response"

text \<open>
  The surroundings of a call: the key in the process configuration, the address of the
  page, the network (\<open>fetch\<close> rejects with an error or resolves with a response),
  \<open>JSON.parse\<close> and the clock \<open>Date.now()\<close>.
\<close>

datatype raw_item = RawItem string jsnum string string string

datatype parsed_json =
    JsonNullish
  | JsonNoTransactions
  | JsonTransactions "raw_item option list"

record world =
  apiKey :: "string option"
  href :: string
  fetch :: "request \<Rightarrow> js_error + http_response"
  jsonParse :: "string \<Rightarrow> js_error + parsed_json"
  dateNow :: nat

definition str_or :: "string option \<Rightarrow> string \<Rightarrow> string" where
  "str_or v dflt = (case v of None \<Rightarrow> dflt | Some x \<Rightarrow> if x = [] then dflt else x)"

definition bool_or_false :: "bool option \<Rightarrow> bool" where
  "bool_or_false v = (case v of None \<Rightarrow> False | Some x \<Rightarrow> x)"

definition num_or :: "jsnum option \<Rightarrow> rat \<Rightarrow> jsnum" where
  "num_or v dflt =
     (case v of
        None \<Rightarrow> Fin dflt
      | Some NaN \<Rightarrow> Fin dflt
      | Some PInf \<Rightarrow> PInf
      | Some NInf \<Rightarrow> NInf
      | Some (Fin a) \<Rightarrow> if a = 0 then Fin dflt else Fin a)"

definition no_options :: call_options where
  "no_options = \<lparr>opt_model = None, opt_max_tokens = None, opt_temperature = None, opt_stream = None\<rparr>"

text \<open>
  The payload and the headers are \<open>buildRequest\<close>. \<open>callOpenRouter\<close> returns what
  the promise settles to (\<open>Inl\<close> when it rejects), together with the requests it handed to \<open>fetch\<close>, in order. An error with the message
  \<open>OpenRouter API error: status - text\<close> is \<open>ApiError status text\<close>; the \<open>catch\<close> writes
  to the console and throws the error again.
\<close>

definition buildRequest :: "world \<Rightarrow> string \<Rightarrow> message list \<Rightarrow> call_options \<Rightarrow> request" where
  "buildRequest w key messages options =
     \<lparr>authorization = ''Bearer '' @ key,
      referer = (if href w = [] then ''http://localhost:3000'' else href w),
      req_model = str_or (opt_model options) ''amazon/nova-2-lite-v1:free'',
      req_messages = messages,
      req_max_tokens = num_or (opt_max_tokens options) 4000,
      req_temperature = num_or (opt_temperature options) (7 / 10),
      req_stream = bool_or_false (opt_stream options)\<rparr>"

definition callOpenRouter ::
  "world \<Rightarrow> message list \<Rightarrow> call_options \<Rightarrow> (js_error + api_response) \<times> request list" where
  "callOpenRouter w messages options =
     (case apiKey w of
        None \<Rightarrow> (Inl KeyNotConfigured, [])
      | Some key \<Rightarrow>
          if key = [] then (Inl KeyNotConfigured, [])
          else
            (let req = buildRequest w key messages options
             in (case fetch w req of
                   Inl e \<Rightarrow> (Inl e, [req])
                 | Inr response \<Rightarrow>
                     if \<not> ok response
                     then (case body_text response of
                             Inl e \<Rightarrow> (Inl e, [req])
                           | Inr errorText \<Rightarrow> (Inl (ApiError (status response) errorText), [req]))
                     else (body_json response, [req]))))"

text \<open>\<open>response.choices[0].message.content\<close>: a \<open>TypeError\<close> when there is no first choice.\<close>

definition firstContent :: "api_response \<Rightarrow> js_error + string" where
  "firstContent response = (case choices response of [] \<Rightarrow> Inl TypeError | c # _ \<Rightarrow> Inr c)"

fun join :: "string \<Rightarrow> string list \<Rightarrow> string" where
  "join sep [] = []"
| "join sep [x] = x"
| "join sep (x # y # ys) = x @ sep @ join sep (y # ys)"

definition nl :: string where
  "nl = [CHR 0x0A]"

definition dq :: string where
  "dq = [CHR 0x22]"

record categories =
  incomeCategories :: "string list"
  expenseCategories :: "string list"
  investmentCategories :: "string list"

definition analyzeTransactionsWithAI ::
  "world \<Rightarrow> string \<Rightarrow> categories \<Rightarrow> (js_error + string) \<times> request list" where
  "analyzeTransactionsWithAI w transactionsText cats =
     (let prompt = join nl
            ['''',
             ''You are a financial assistant. Analyze the following transaction data and provide insights:'',
             '''',
             ''Transactions:'',
             transactionsText,
             '''',
             ''Available Categories:'',
             ''- Income: '' @ join '', '' (incomeCategories cats),
             ''- Expenses: '' @ join '', '' (expenseCategories cats),
             ''- Investments: '' @ join '', '' (investmentCategories cats),
             '''',
             ''Please provide:'',
             ''1. Summary of spending patterns'',
             ''2. Suggestions for budget optimization'',
             ''3. Any anomalies or unusual transactions'',
             '''',
             ''Format your response in clear, concise paragraphs.'',
             ''''];
          (response, reqs) = callOpenRouter w
            [\<lparr>role = System, content = ''You are a helpful financial analyst.''\<rparr>,
             \<lparr>role = User, content = prompt\<rparr>] no_options
      in (case response of Inl e \<Rightarrow> (Inl e, reqs) | Inr r \<Rightarrow> (firstContent r, reqs)))"

definition parseStatementWithAI ::
  "world \<Rightarrow> string \<Rightarrow> string \<Rightarrow> (js_error + string) \<times> request list" where
  "parseStatementWithAI w statement context =
     (let prompt = join nl
            ['''',
             ''Parse the following '' @ context @ '' and extract transaction information.'',
             ''Return the data in this exact JSON format:'',
             '''',
             ''{'',
             ''  '' @ dq @ ''transactions'' @ dq @ '': ['',
             ''    {'',
             ''      '' @ dq @ ''date'' @ dq @ '': '' @ dq @ ''YYYY-MM-DD'' @ dq @ '','',
             ''      '' @ dq @ ''amount'' @ dq @ '': number,'',
             ''      '' @ dq @ ''category'' @ dq @ '': '' @ dq @ ''string from provided categories'' @ dq @ '','',
             ''      '' @ dq @ ''note'' @ dq @ '': '' @ dq @ ''description from statement'' @ dq @ '','',
             ''      '' @ dq @ ''type'' @ dq @ '': '' @ dq @ ''expense'' @ dq @ '' or '' @ dq @ ''income''
                @ dq @ '' or '' @ dq @ ''investment'' @ dq,
             ''    }'',
             ''  ]'',
             ''}'',
             '''',
             ''Statement content:'',
             statement,
             '''',
             ''Important: Only return valid JSON, no additional text.'',
             ''''];
          (response, reqs) = callOpenRouter w
            [\<lparr>role = System, content = ''You are a data extraction specialist. Return only JSON.''\<rparr>,
             \<lparr>role = User, content = prompt\<rparr>] no_options
      in (case response of Inl e \<Rightarrow> (Inl e, reqs) | Inr r \<Rightarrow> (firstContent r, reqs)))"

section \<open>The AI tools component\<close>

record found_item =
  item_id :: string
  item_date :: string
  item_amount :: jsnum
  item_category :: string
  item_note :: string
  item_type :: string
  item_source :: string

text \<open>
  The state the three handlers read and write: the component's own state, the found
  transactions of its parent, the notifications shown (\<open>onShowNotification\<close>) and the
  requests sent so far.
\<close>

record ui_state =
  isProcessing :: bool
  aiInsights :: string
  aiQuery :: string
  statementText :: string
  foundTransactions :: "found_item list"
  notifications :: "string list"
  sent :: "request list"

type_synonym block = "ui_state \<Rightarrow> js_error option \<times> ui_state"

text \<open>
  \<open>try { body } catch (error) { handler } finally { finalizer }\<close>: the handler runs when
  the body throws, the finalizer runs in every case, and what is still thrown after it
  is the finalizer's exception, or else the handler's.
\<close>

definition tryCatchFinally :: "block \<Rightarrow> (js_error \<Rightarrow> block) \<Rightarrow> block \<Rightarrow> block" where
  "tryCatchFinally body handler finalizer s =
     (let (r1, s1) = body s;
          (r2, s2) = (case r1 of None \<Rightarrow> (None, s1) | Some e \<Rightarrow> handler e s1);
          (r3, s3) = finalizer s2
      in (case r3 of Some e \<Rightarrow> (Some e, s3) | None \<Rightarrow> (r2, s3)))"

definition onShowNotification :: "string \<Rightarrow> ui_state \<Rightarrow> ui_state" where
  "onShowNotification msg s = s\<lparr>notifications := notifications s @ [msg]\<rparr>"

definition setIsProcessing :: "bool \<Rightarrow> ui_state \<Rightarrow> ui_state" where
  "setIsProcessing b s = s\<lparr>isProcessing := b\<rparr>"

fun showNat :: "nat \<Rightarrow> string" where
  "showNat n =
     (if n < 10 then [char_of (48 + n)] else showNat (n div 10) @ [char_of (48 + n mod 10)])"

definition trim :: "string \<Rightarrow> string" where
  "trim s = rev (dropWhile isWhiteSpace (rev (dropWhile isWhiteSpace s)))"

definition describeTx :: "runtime \<Rightarrow> transaction \<Rightarrow> string" where
  "describeTx rt t =
     date t @ '': '' @ category t @ '' - $'' @ js_toString rt (amount t)
       @ (case tx_note t of
            None \<Rightarrow> []
          | Some n \<Rightarrow> if n = [] then [] else '' ('' @ n @ '')'')"

definition handleAnalyzeTransactions ::
  "runtime \<Rightarrow> world \<Rightarrow> transaction list \<Rightarrow> categories \<Rightarrow> block" where
  "handleAnalyzeTransactions rt w transactions cats s =
     (if length transactions = 0 then (None, onShowNotification ''No transactions to analyze'' s)
      else
        tryCatchFinally
          (\<lambda>s. let transactionsText = join nl (map (describeTx rt) (take 50 transactions));
                    (insights, reqs) = analyzeTransactionsWithAI w transactionsText cats;
                    s1 = s\<lparr>sent := sent s @ reqs\<rparr>
                in (case insights of
                      Inl e \<Rightarrow> (Some e, s1)
                    | Inr text \<Rightarrow> (None, onShowNotification ''Analysis complete'' (s1\<lparr>aiInsights := text\<rparr>))))
          (\<lambda>error s. (None, onShowNotification ''AI analysis failed'' s))
          (\<lambda>s. (None, setIsProcessing False s))
          (setIsProcessing True s))"

fun foundItems :: "nat \<Rightarrow> nat \<Rightarrow> raw_item option list \<Rightarrow> js_error + found_item list" where
  "foundItems t index [] = Inr []"
| "foundItems t index (None # rest) = Inl TypeError"
| "foundItems t index (Some (RawItem d a c n ty) # rest) =
     (case foundItems t (Suc index) rest of
        Inl e \<Rightarrow> Inl e
      | Inr items \<Rightarrow>
          Inr (\<lparr>item_id = ''ai-'' @ showNat t @ ''-'' @ showNat index, item_date = d,
                 item_amount = a, item_category = c, item_note = n, item_type = ty,
                 item_source = ''PDF file''\<rparr> # items))"

definition handleParseStatement :: "world \<Rightarrow> block" where
  "handleParseStatement w s =
     (if trim (statementText s) = [] then (None, onShowNotification ''Please paste statement text'' s)
      else
        tryCatchFinally
          (\<lambda>s. let (response, reqs) = parseStatementWithAI w (statementText s) ''bank statement'';
                    s1 = s\<lparr>sent := sent s @ reqs\<rparr>
                in (case response of
                      Inl e \<Rightarrow> (Some e, s1)
                    | Inr text \<Rightarrow>
                        (case jsonParse w text of
                           Inl e \<Rightarrow> (Some e, s1)
                         | Inr JsonNullish \<Rightarrow> (Some TypeError, s1)
                         | Inr JsonNoTransactions \<Rightarrow> (None, s1)
                         | Inr (JsonTransactions raw) \<Rightarrow>
                             (case foundItems (dateNow w) 0 raw of
                                Inl e \<Rightarrow> (Some e, s1)
                              | Inr items \<Rightarrow>
                                  (None,
                                   (onShowNotification
                                      (''Found '' @ showNat (length items) @ '' transactions'')
                                      (s1\<lparr>foundTransactions := items\<rparr>))\<lparr>statementText := []\<rparr>)))))
          (\<lambda>error s. (None, onShowNotification ''Failed to parse statement'' s))
          (\<lambda>s. (None, setIsProcessing False s))
          (setIsProcessing True s))"

definition handleAskQuestion :: "world \<Rightarrow> transaction list \<Rightarrow> block" where
  "handleAskQuestion w transactions s =
     (if trim (aiQuery s) = [] then (None, onShowNotification ''Please enter a question'' s)
      else
        tryCatchFinally
          (\<lambda>s. let (response, reqs) = callOpenRouter w
                      [\<lparr>role = System,
                        content = ''You are a financial advisor helping with expense tracking.''\<rparr>,
                       \<lparr>role = User,
                        content = ''Context: I have '' @ showNat (length transactions)
                          @ '' transactions in my expense tracker. '' @ aiQuery s\<rparr>] no_options;
                    s1 = s\<lparr>sent := sent s @ reqs\<rparr>
                in (case response of
                      Inl e \<Rightarrow> (Some e, s1)
                    | Inr r \<Rightarrow>
                        (case firstContent r of
                           Inl e \<Rightarrow> (Some e, s1)
                         | Inr text \<Rightarrow>
                             (None,
                              (onShowNotification ''Answer received'' (s1\<lparr>aiInsights := text\<rparr>))
                                \<lparr>aiQuery := []\<rparr>))))
          (\<lambda>error s. (None, onShowNotification ''Failed to get answer'' s))
          (\<lambda>s. (None, setIsProcessing False s))
          (setIsProcessing True s))"

section \<open>Notions used to state the properties\<close>

text \<open>The value of a finite number, with 0 for \<open>NaN\<close> and the infinities.\<close>

definition numVal :: "jsnum \<Rightarrow> rat" where
  "numVal n = (case n of Fin a \<Rightarrow> a | _ \<Rightarrow> 0)"

definition finiteNum :: "jsnum \<Rightarrow> bool" where
  "finiteNum n = (case n of Fin a \<Rightarrow> True | _ \<Rightarrow> False)"

subsection \<open>Budget view\<close>

text \<open>
  The own property \<open>k\<close> of an object is absent or holds a number, and the default-zero
  lookup the specification speaks of: the number an object contributes for a category,
  0 when the property is absent, \<open>NaN\<close> or 0.
\<close>

definition numberAt :: "jsobj \<Rightarrow> string \<Rightarrow> bool" where
  "numberAt obj k =
     (case map_of obj k of
        None \<Rightarrow> True
      | Some v \<Rightarrow> (case v of JNum n \<Rightarrow> True | _ \<Rightarrow> False))"

definition lookup0 :: "jsobj \<Rightarrow> string \<Rightarrow> jsnum" where
  "lookup0 obj k =
     (case map_of obj k of
        Some (JNum n) \<Rightarrow> if truthy (Some (JNum n)) then n else Fin 0
      | _ \<Rightarrow> Fin 0)"

text \<open>The sum of the default-zero lookups over a category list, in JavaScript arithmetic.\<close>

definition sumOver :: "jsobj \<Rightarrow> string list \<Rightarrow> jsnum" where
  "sumOver obj categories = fold (\<lambda>cat sum. js_add sum (lookup0 obj cat)) categories (Fin 0)"

subsection \<open>Running balances\<close>











definition absSum :: "transaction list \<Rightarrow> rat" where
  "absSum ts = sum_list (map (\<lambda>t. \<bar>numVal (amount t)\<bar>) ts)"


subsection \<open>Shades and bucket entries\<close>



text \<open>
  Reading a bucket entry: the sum of the values stored under the category keys (every
  key but \<open>name\<close> and \<open>total\<close>), and the total as the source reads it, \<open>entry.total || 0\<close>.
  A string or an object counts as \<open>NaN\<close> in a sum of numbers.
\<close>

fun numOf :: "jsval \<Rightarrow> jsnum" where
  "numOf (JNum n) = n"
| "numOf (JStr s) = NaN"
| "numOf (JObj k) = NaN"

definition categoryKey :: "string \<Rightarrow> bool" where
  "categoryKey k = (k \<noteq> ''name'' \<and> k \<noteq> ''total'')"

definition categoryTotals :: "entry \<Rightarrow> jsnum" where
  "categoryTotals e =
     fold (\<lambda>kv acc. js_add acc (numOf (snd kv))) (filter (\<lambda>kv. categoryKey (fst kv)) e) (Fin 0)"

definition bucketTotal :: "entry \<Rightarrow> jsnum" where
  "bucketTotal e = numOf (or0 (getProp e ''total''))"

section \<open>Example inputs\<close>

text \<open>
  An instance of the runtime: date strings of the form \<open>YYYY-MM-DD\<close> are read as that
  day at local midnight and every other string is \<open>Invalid Date\<close>; whole numbers print in
  decimal, and a string of decimal digits, with or without a minus sign, converts to that
  number (the empty string to 0) and the other strings of the examples, none of which
  is a numeral, to \<open>NaN\<close>; a built-in function prints as \<open>function f() { [native code] }\<close> and
  \<open>Object.prototype\<close> as \<open>[object Object]\<close>; the sort is the stable insertion sort for
  every comparator; the current instant is Wednesday 2024-06-12, 10:00.
\<close>

definition digitVal :: "char \<Rightarrow> nat option" where
  "digitVal c = (let n = (of_char c :: nat) in if 48 \<le> n \<and> n \<le> 57 then Some (n - 48) else None)"

fun decimal :: "nat \<Rightarrow> string \<Rightarrow> nat option" where
  "decimal acc [] = Some acc"
| "decimal acc (c # cs) = (case digitVal c of None \<Rightarrow> None | Some v \<Rightarrow> decimal (acc * 10 + v) cs)"

definition isoDate :: "string \<Rightarrow> jsdate option" where
  "isoDate s =
     (if length s = 10 \<and> take 1 (drop 4 s) = ''-'' \<and> take 1 (drop 7 s) = ''-''
      then (case decimal 0 (take 4 s) of
              None \<Rightarrow> None
            | Some y \<Rightarrow>
                (case decimal 0 (take 2 (drop 5 s)) of
                   None \<Rightarrow> None
                 | Some m \<Rightarrow>
                     (case decimal 0 (drop 8 s) of
                        None \<Rightarrow> None
                      | Some d \<Rightarrow>
                          if 1 \<le> m \<and> m \<le> 12 \<and> 1 \<le> d \<and> d \<le> daysInMonth (int y) (m - 1)
                          then Some \<lparr>year = int y, month = m - 1, day = d, time_ms = 0\<rparr>
                          else None)))
      else None)"

definition showWhole :: "rat \<Rightarrow> string" where
  "showWhole a = (if a < 0 then ''-'' else []) @ showNat (nat \<lfloor>\<bar>a\<bar>\<rfloor>)"

definition readWhole :: "string \<Rightarrow> jsnum" where
  "readWhole s =
     (if take 1 s = ''-'' \<and> drop 1 s \<noteq> []
      then (case decimal 0 (drop 1 s) of None \<Rightarrow> NaN | Some n \<Rightarrow> Fin (- of_nat n))
      else (case decimal 0 s of None \<Rightarrow> NaN | Some n \<Rightarrow> Fin (of_nat n)))"

definition nativeText :: "string \<Rightarrow> string" where
  "nativeText k =
     (if k = ''__proto__'' then ''[object Object]''
      else ''function '' @ (if k = ''constructor'' then ''Object'' else k)
             @ ''() { [native code] }'')"

definition rt_ex :: runtime where
  "rt_ex = \<lparr>now = \<lparr>year = 2024, month = 5, day = 12, time_ms = 36000000\<rparr>,
            parseDate = isoDate, numToString = showWhole, stringToNumber = readWhole,
            objectText = nativeText, engineSort = sortBy\<rparr>"

definition tx_ex :: "string \<Rightarrow> rat \<Rightarrow> string \<Rightarrow> txtype \<Rightarrow> transaction" where
  "tx_ex d a c ty =
     \<lparr>tx_id = ''t'', date = d, amount = Fin a, category = c, tx_type = ty, tx_note = None\<rparr>"

definition tx_nan :: transaction where
  "tx_nan = \<lparr>tx_id = ''n'', date = ''2024-06-01'', amount = NaN, category = ''Food'',
             tx_type = Expense, tx_note = None\<rparr>"

definition spend_ex :: "transaction list" where
  "spend_ex = [tx_ex ''2024-06-03'' (- 50) ''Food'' Expense,
               tx_ex ''2024-06-10'' 2000 ''Salary'' Income,
               tx_ex ''2024-05-28'' (- 20) ''Food'' Expense]"

definition budgets_ex :: jsobj where
  "budgets_ex = [(''Food'', JNum (Fin 200)), (''Rent'', JNum (Fin 900))]"

definition response_500 :: http_response where
  "response_500 = \<lparr>ok = False, status = 500, body_text = Inr ''down'',
                    body_json = Inr \<lparr>choices = [''never read'']\<rparr>\<rparr>"

definition world_nokey :: world where
  "world_nokey = \<lparr>apiKey = None, href = ''http://localhost:3000/'',
                   fetch = (\<lambda>req. Inr response_500),
                   jsonParse = (\<lambda>s. Inl SyntaxError), dateNow = 0\<rparr>"

definition world_500 :: world where
  "world_500 = world_nokey\<lparr>apiKey := Some ''k''\<rparr>"

definition response_ok :: http_response where
  "response_ok = \<lparr>ok = True, status = 200, body_text = Inr ''{}'',
                   body_json = Inr \<lparr>choices = [''answer'']\<rparr>\<rparr>"

definition world_badjson :: world where
  "world_badjson = world_nokey\<lparr>apiKey := Some ''k'', fetch := (\<lambda>req. Inr response_ok)\<rparr>"

definition world_ok :: world where
  "world_ok = world_badjson
     \<lparr>jsonParse := (\<lambda>s. Inr (JsonTransactions
         [Some (RawItem ''2024-01-05'' (Fin (- 25 / 2)) ''Dining'' ''Cafe'' ''expense'')]))\<rparr>"

definition cats_ex :: categories where
  "cats_ex = \<lparr>incomeCategories = [''Salary''], expenseCategories = [''Food''],
              investmentCategories = [''ETF'']\<rparr>"

definition state_ex :: ui_state where
  "state_ex = \<lparr>isProcessing = False, aiInsights = [], aiQuery = ''how much?'',
               statementText = ''01/05 CAFE 12.50'', foundTransactions = [],
               notifications = [], sent = []\<rparr>"

text \<open>
  The bucket label of a transaction under a labelling function, and the number of
  buckets of a period.
\<close>

definition txLabel :: "runtime \<Rightarrow> (jsdate \<Rightarrow> string) \<Rightarrow> transaction \<Rightarrow> string" where
  "txLabel rt fmt tx = (case parseDate rt (date tx) of None \<Rightarrow> [] | Some d \<Rightarrow> fmt d)"

definition bucketCount :: "period \<Rightarrow> nat" where
  "bucketCount p = (case p of W \<Rightarrow> 7 | SixM \<Rightarrow> 6 | Y \<Rightarrow> 12 | M \<Rightarrow> 0)"

text \<open>
  The category sum of an entry as a rational, and the entries on which the two readings
  agree: distinct keys, a finite number, not negative, under every key but \<open>name\<close>, and
  a total equal to the category sum, which is at most \<open>b\<close>.
\<close>

definition catSum :: "entry \<Rightarrow> rat" where
  "catSum e = sum_list (map (\<lambda>kv. numVal (numOf (snd kv))) (filter (\<lambda>kv. categoryKey (fst kv)) e))"

definition numericEntry :: "entry \<Rightarrow> bool" where
  "numericEntry e =
     list_all (\<lambda>kv. fst kv = ''name'' \<or> (\<exists>x. 0 \<le> x \<and> snd kv = JNum (Fin x))) e"

definition entryOk :: "rat \<Rightarrow> entry \<Rightarrow> bool" where
  "entryOk b e =
     (distinct (map fst e) \<and> numericEntry e \<and> bucketTotal e = Fin (catSum e) \<and> catSum e \<le> b)"

text \<open>The month entry the flow series starts from.\<close>

definition zeroMonth :: "string \<Rightarrow> flow_entry" where
  "zeroMonth k = \<lparr>name = k, income = Fin 0, expense = Fin 0, investment = Fin 0\<rparr>"

section \<open>Properties of the numbers\<close>

text \<open>The overflow threshold as a numeral, for evaluation.\<close>

lemma overflowBound_numeral [code]:
  "overflowBound = 179769313486231580793728971405303415079934132710037826936173778980444968292764750946649017977587207096330286416692887910946555547851940402630657488671505820681908902000708383676273854845817711531764475730270069855571366959622842914819860834936475292719074168444365510704342711559699508093042880177904174497792"
  by (simp add: overflowBound_def)


lemma overflow_Fin: "\<bar>r\<bar> < overflowBound \<Longrightarrow> overflow r = Fin r"
  by (auto simp: overflow_def)



section \<open>Properties of objects\<close>

lemma map_of_assoc_set: "map_of (assoc_set m k v) = (map_of m)(k \<mapsto> v)"
  by (induction m) auto

lemma getProp_own: "\<not> inheritedName k \<Longrightarrow> getProp obj k = map_of obj k"
  by (simp add: getProp_def split: option.splits)

lemma or0_numberAt:
  assumes "\<not> inheritedName k" "numberAt obj k"
  shows "or0 (getProp obj k) = JNum (lookup0 obj k)"
proof (cases "map_of obj k")
  case None
  with assms(1) show ?thesis by (simp add: getProp_own or0_def lookup0_def)
next
  case (Some v)
  with assms(2) obtain n where "v = JNum n"
    by (cases v) (simp_all add: numberAt_def)
  with Some assms(1) show ?thesis by (simp add: getProp_own or0_def lookup0_def)
qed


lemma js_plus_numbers:
  assumes "\<not> inheritedName k" "numberAt obj k"
  shows "js_plus rt (JNum a) (or0 (getProp obj k)) = JNum (js_add a (lookup0 obj k))"
    and "js_plus rt (or0 (getProp obj k)) (JNum a) = JNum (js_add (lookup0 obj k) a)"
  by (simp_all add: or0_numberAt [OF assms])


section \<open>Properties of the budget view\<close>

subsection \<open>The percentage of a row\<close>








subsection \<open>The totals of a table\<close>

text \<open>
  Claim C6 fails on the code where the category list holds the name of a member of
  \<open>Object.prototype\<close>. Both lookups read a plain object, so for the category
  \<open>constructor\<close> they find the inherited function \<open>Object\<close> instead of nothing, \<open>|| 0\<close>
  keeps it, and \<open>+\<close> concatenates: with 50 spent on \<open>Food\<close> this month and a budget of
  200 for it, the totals over \<open>Food\<close> and \<open>constructor\<close> are two strings and the remaining
  amount is \<open>NaN\<close>, where the sums of the default-zero lookups are -50 and 200.
\<close>

theorem budget_totals_inherited_category:
  "totalTracked rt_ex (spendingByCategory rt_ex spend_ex) [''Food'', ''constructor'']
     = JStr ''-50function Object() { [native code] }''
   \<and> totalBudget rt_ex budgets_ex [''Food'', ''constructor'']
     = JStr ''200function Object() { [native code] }''
   \<and> totalRemaining rt_ex (spendingByCategory rt_ex spend_ex) budgets_ex
         [''Food'', ''constructor''] = NaN
   \<and> sumOver (spendingByCategory rt_ex spend_ex) [''Food'', ''constructor''] = Fin (- 50)
   \<and> sumOver budgets_ex [''Food'', ''constructor''] = Fin 200"
  by code_simp

text \<open>
  Without such a name in the list, and the two objects holding numbers, the code does
  what the claim says: both totals are the sums of the default-zero lookups over the
  list, in JavaScript arithmetic, the remaining amount and the colour test are computed
  from them, and only the properties named in the list are read. The sums are the
  exact ones as long as the absolute values add up to less than the overflow threshold.
\<close>

lemma fold_totals:
  "\<forall>c \<in> set categories. \<not> inheritedName c \<and> numberAt obj c \<Longrightarrow>
   fold (\<lambda>cat sum. js_plus rt sum (or0 (getProp obj cat))) categories (JNum a)
     = JNum (fold (\<lambda>cat sum. js_add sum (lookup0 obj cat)) categories a)"
proof (induction categories arbitrary: a)
  case Nil
  show ?case by simp
next
  case (Cons c cs)
  from Cons.prems have c: "\<not> inheritedName c" "numberAt obj c" by simp_all
  from Cons.prems have "\<forall>c \<in> set cs. \<not> inheritedName c \<and> numberAt obj c" by simp
  from Cons.IH [OF this, of "js_add a (lookup0 obj c)"] show ?case
    by (simp add: js_plus_numbers [OF c])
qed

lemma budget_totals_own_categories:
  assumes "\<forall>c \<in> set categories. \<not> inheritedName c \<and> numberAt spending c \<and> numberAt budgets c"
  shows "totalTracked rt spending categories = JNum (sumOver spending categories)"
    and "totalBudget rt budgets categories = JNum (sumOver budgets categories)"
    and "totalRemaining rt spending budgets categories
           = js_sub (sumOver budgets categories) (js_abs (sumOver spending categories))"
    and "overBudget rt spending budgets categories
           = js_gt (js_abs (sumOver spending categories)) (sumOver budgets categories)"
proof -
  from assms have s: "\<forall>c \<in> set categories. \<not> inheritedName c \<and> numberAt spending c"
    and b: "\<forall>c \<in> set categories. \<not> inheritedName c \<and> numberAt budgets c"
    by simp_all
  show t: "totalTracked rt spending categories = JNum (sumOver spending categories)"
    using fold_totals [OF s] by (simp add: totalTracked_def sumOver_def)
  show u: "totalBudget rt budgets categories = JNum (sumOver budgets categories)"
    using fold_totals [OF b] by (simp add: totalBudget_def sumOver_def)
  show "totalRemaining rt spending budgets categories
           = js_sub (sumOver budgets categories) (js_abs (sumOver spending categories))"
    by (simp add: totalRemaining_def t u)
  show "overBudget rt spending budgets categories
           = js_gt (js_abs (sumOver spending categories)) (sumOver budgets categories)"
    by (simp add: overBudget_def t u)
qed

lemma budget_totals_frame:
  assumes "\<forall>c \<in> set categories. map_of spending c = map_of spending' c"
    and "\<forall>c \<in> set categories. map_of budgets c = map_of budgets' c"
  shows "totalTracked rt spending categories = totalTracked rt spending' categories"
    and "totalBudget rt budgets categories = totalBudget rt budgets' categories"
proof -
  have "fold (\<lambda>cat sum. js_plus rt sum (or0 (getProp obj cat))) categories a
      = fold (\<lambda>cat sum. js_plus rt sum (or0 (getProp obj' cat))) categories a"
    if "\<forall>c \<in> set categories. map_of obj c = map_of obj' c" for obj obj' a
    using that by (induction categories arbitrary: a) (simp_all add: getProp_def)
  from this [OF assms(1)] this [OF assms(2)]
  show "totalTracked rt spending categories = totalTracked rt spending' categories"
    and "totalBudget rt budgets categories = totalBudget rt budgets' categories"
    by (simp_all add: totalTracked_def totalBudget_def)
qed

lemma sumOver_exact_fold:
  "\<forall>c \<in> set categories. finiteNum (lookup0 obj c) \<Longrightarrow>
   \<bar>a\<bar> + sum_list (map (\<lambda>c. \<bar>numVal (lookup0 obj c)\<bar>) categories) < overflowBound \<Longrightarrow>
   fold (\<lambda>cat sum. js_add sum (lookup0 obj cat)) categories (Fin a)
     = Fin (a + sum_list (map (\<lambda>c. numVal (lookup0 obj c)) categories))"
proof (induction categories arbitrary: a)
  case Nil
  show ?case by simp
next
  case (Cons c cs)
  from Cons.prems(1) obtain x where x: "lookup0 obj c = Fin x"
    by (cases "lookup0 obj c") (simp_all add: finiteNum_def)
  have nonneg: "0 \<le> sum_list (map (\<lambda>c. \<bar>numVal (lookup0 obj c)\<bar>) cs)"
    by (rule sum_list_nonneg) auto
  from Cons.prems(2) x
  have bound: "\<bar>a\<bar> + \<bar>x\<bar> + sum_list (map (\<lambda>c. \<bar>numVal (lookup0 obj c)\<bar>) cs) < overflowBound"
    by (simp add: numVal_def)
  with nonneg have "\<bar>a + x\<bar> < overflowBound" by linarith
  then have step: "overflow (a + x) = Fin (a + x)"
    by (rule overflow_Fin)
  from bound have "\<bar>a + x\<bar> + sum_list (map (\<lambda>c. \<bar>numVal (lookup0 obj c)\<bar>) cs) < overflowBound"
    by linarith
  from Cons.IH [OF _ this] Cons.prems(1) show ?case
    by (simp add: x step numVal_def add.assoc)
qed

lemma sumOver_exact:
  assumes "\<forall>c \<in> set categories. finiteNum (lookup0 obj c)"
    and "sum_list (map (\<lambda>c. \<bar>numVal (lookup0 obj c)\<bar>) categories) < overflowBound"
  shows "sumOver obj categories = Fin (sum_list (map (\<lambda>c. numVal (lookup0 obj c)) categories))"
  using sumOver_exact_fold [OF assms(1), of 0] assms(2) by (simp add: sumOver_def)

section \<open>Properties of the shade generator\<close>





section \<open>Properties of the chat-completion service and of the handlers\<close>

text \<open>
  Claim C8. When the API key is absent (or empty), \<open>callOpenRouter\<close> fails with the
  configuration error and hands no request to \<open>fetch\<close>; and for all messages and options, when the key
  is present and \<open>fetch\<close> answers its request with a response that is not \<open>ok\<close>, the
  call fails: with the error made of the status and the body text when that text can be
  read.
\<close>

theorem callOpenRouter_failures:
  "(apiKey w = None \<or> apiKey w = Some [] \<longrightarrow>
      callOpenRouter w messages options = (Inl KeyNotConfigured, []))
   \<and> (\<forall>key response.
         apiKey w = Some key \<and> key \<noteq> []
         \<and> fetch w (buildRequest w key messages options) = Inr response \<and> \<not> ok response
         \<longrightarrow> (\<exists>e. fst (callOpenRouter w messages options) = Inl e)
             \<and> (\<forall>errorText. body_text response = Inr errorText \<longrightarrow>
                   fst (callOpenRouter w messages options)
                     = Inl (ApiError (status response) errorText)))"
  by (auto simp: callOpenRouter_def Let_def split: sum.splits)

theorem callOpenRouter_failures_witness:
  "callOpenRouter world_nokey [] no_options = (Inl KeyNotConfigured, [])
   \<and> fst (callOpenRouter world_500 [] no_options) = Inl (ApiError 500 ''down'')"
proof -
  have k: "apiKey world_nokey = None" by (simp add: world_nokey_def)
  have h: "apiKey world_500 = Some ''k'' \<and> ''k'' \<noteq> []
      \<and> fetch world_500 (buildRequest world_500 ''k'' [] no_options) = Inr response_500
      \<and> \<not> ok response_500"
    by (simp add: world_500_def world_nokey_def response_500_def)
  have t: "body_text response_500 = Inr ''down''" "status response_500 = 500"
    by (simp_all add: response_500_def)
  from callOpenRouter_failures [of world_nokey "[]" no_options] k
  have a: "callOpenRouter world_nokey [] no_options = (Inl KeyNotConfigured, [])" by blast
  from callOpenRouter_failures [of world_500 "[]" no_options] h t
  have b: "fst (callOpenRouter world_500 [] no_options) = Inl (ApiError 500 ''down'')"
    by metis
  from a b show ?thesis by simp
qed

lemma tryCatchFinally_clears:
  "isProcessing (snd (tryCatchFinally body handler (\<lambda>s. (None, setIsProcessing False s)) s)) = False"
  by (simp add: tryCatchFinally_def setIsProcessing_def split: prod.splits option.splits)

text \<open>
  Claim C9. Each of the three handlers, run from any state against any world (whatever
  the service, \<open>JSON.parse\<close> and the shape of the parsed answer do), ends with the
  processing flag false as soon as it has got past its first test, which is where the
  flag is set; when it returns at that test the flag is left as it was.
\<close>

theorem handlers_clear_processing:
  "isProcessing (snd (handleAnalyzeTransactions rt w transactions cats s))
     = (if length transactions = 0 then isProcessing s else False)
   \<and> isProcessing (snd (handleParseStatement w s))
     = (if trim (statementText s) = [] then isProcessing s else False)
   \<and> isProcessing (snd (handleAskQuestion w transactions s))
     = (if trim (aiQuery s) = [] then isProcessing s else False)"
  by (simp add: handleAnalyzeTransactions_def handleParseStatement_def handleAskQuestion_def
        tryCatchFinally_clears onShowNotification_def)

theorem handlers_clear_processing_witness:
  "isProcessing (snd (handleParseStatement world_nokey state_ex)) = False
   \<and> notifications (snd (handleParseStatement world_nokey state_ex)) = [''Failed to parse statement'']
   \<and> isProcessing (snd (handleParseStatement world_badjson state_ex)) = False
   \<and> notifications (snd (handleParseStatement world_badjson state_ex)) = [''Failed to parse statement'']
   \<and> isProcessing (snd (handleParseStatement world_ok state_ex)) = False
   \<and> notifications (snd (handleParseStatement world_ok state_ex)) = [''Found 1 transactions'']
   \<and> isProcessing (snd (handleAskQuestion world_nokey [] state_ex)) = False
   \<and> isProcessing (snd (handleAnalyzeTransactions rt_ex world_nokey [tx_nan] cats_ex state_ex)) = False"
proof -
  have guards: "trim (statementText state_ex) \<noteq> []" "trim (aiQuery state_ex) \<noteq> []"
      "length [tx_nan] \<noteq> 0"
    by (simp_all add: state_ex_def trim_def isWhiteSpace_def)
  have n1: "notifications (snd (handleParseStatement world_nokey state_ex))
      = [''Failed to parse statement'']"
    using guards
    by (simp add: handleParseStatement_def tryCatchFinally_def parseStatementWithAI_def
          callOpenRouter_def world_nokey_def onShowNotification_def setIsProcessing_def
          state_ex_def)
  have n2: "notifications (snd (handleParseStatement world_badjson state_ex))
      = [''Failed to parse statement'']"
    using guards
    by (simp add: handleParseStatement_def tryCatchFinally_def parseStatementWithAI_def
          callOpenRouter_def world_badjson_def world_nokey_def response_ok_def firstContent_def
          onShowNotification_def setIsProcessing_def state_ex_def Let_def)
  have one: "showNat (Suc 0) = ''1''" by code_simp
  have n3: "notifications (snd (handleParseStatement world_ok state_ex))
      = [''Found 1 transactions'']"
    using guards
    by (simp del: showNat.simps add: one handleParseStatement_def tryCatchFinally_def parseStatementWithAI_def
          callOpenRouter_def world_ok_def world_badjson_def world_nokey_def response_ok_def
          firstContent_def onShowNotification_def setIsProcessing_def state_ex_def Let_def)
  from handlers_clear_processing [of rt_ex world_nokey "[tx_nan]" cats_ex state_ex]
    handlers_clear_processing [of rt_ex world_badjson "[]" cats_ex state_ex]
    handlers_clear_processing [of rt_ex world_ok "[]" cats_ex state_ex]
    handlers_clear_processing [of rt_ex world_nokey "[]" cats_ex state_ex]
    guards n1 n2 n3
  show ?thesis by simp
qed

section \<open>Properties of the sorted copy\<close>

lemma sortedTransactionsRef_eq:
  "sortedTransactionsRef rt h a =
     ((h @ [h ! a])[length h := sortByDate rt (h ! a)], length h)"
  by (simp add: sortedTransactionsRef_def spread_def sortInPlace_def)

lemma sortedTransactionsRef_old:
  "b < length h \<Longrightarrow> fst (sortedTransactionsRef rt h a) ! b = h ! b"
  by (simp add: sortedTransactionsRef_eq nth_append)

lemma sortedTransactionsRef_new:
  "a < length h \<Longrightarrow>
   fst (sortedTransactionsRef rt h a) ! snd (sortedTransactionsRef rt h a)
     = sortedTransactions rt (h ! a)"
  by (simp add: sortedTransactionsRef_eq sortedTransactions_def)

text \<open>
  Claim C10. Computing the three series from the array \<open>transactions\<close> of a heap leaves
  every array of that heap as it was, the input array among them: the sort works on a
  new array. The three series are those of the date-sorted list of the input.
\<close>

theorem statistics_leaves_input:
  assumes "transactions < length h"
  shows "(\<forall>a < length h. fst (statisticsData rt period dateOffset h transactions) ! a = h ! a)
     \<and> snd (statisticsData rt period dateOffset h transactions) =
         \<lparr>netAsset = netAssetData (sortedTransactions rt (h ! transactions)),
          spendingChart =
            spendingChartData rt period dateOffset (sortedTransactions rt (h ! transactions)),
          flowOverTime = flowOverTimeData rt (sortedTransactions rt (h ! transactions))\<rparr>"
proof -
  obtain h' r where ref: "sortedTransactionsRef rt h transactions = (h', r)"
    by (cases "sortedTransactionsRef rt h transactions")
  have old: "\<forall>a < length h. h' ! a = h ! a"
    using sortedTransactionsRef_old [of _ h rt transactions] ref by simp
  have new: "h' ! r = sortedTransactions rt (h ! transactions)"
    using sortedTransactionsRef_new [OF assms, of rt] ref by simp
  show ?thesis
    using old new by (simp add: statisticsData_def ref Let_def)
qed

theorem statistics_leaves_input_witness:
  "fst (statisticsData rt_ex Y 0
          [[tx_ex ''2024-03-05'' (- 30) ''Food'' Expense, tx_ex ''2024-01-05'' 100 ''Pay'' Income]] 0) ! 0
     = [tx_ex ''2024-03-05'' (- 30) ''Food'' Expense, tx_ex ''2024-01-05'' 100 ''Pay'' Income]
   \<and> wealthData (netAsset (snd (statisticsData rt_ex Y 0
          [[tx_ex ''2024-03-05'' (- 30) ''Food'' Expense, tx_ex ''2024-01-05'' 100 ''Pay'' Income]] 0)))
     = [\<lparr>point_date = ''2024-01-05'', balance = Fin 100\<rparr>,
        \<lparr>point_date = ''2024-03-05'', balance = Fin 70\<rparr>]"
proof -
  let ?h = "[[tx_ex ''2024-03-05'' (- 30) ''Food'' Expense, tx_ex ''2024-01-05'' 100 ''Pay'' Income]]"
  have valid: "(0::nat) < length ?h" by simp
  have sorted_list: "sortedTransactions rt_ex (?h ! 0) =
      [tx_ex ''2024-01-05'' 100 ''Pay'' Income, tx_ex ''2024-03-05'' (- 30) ''Food'' Expense]"
    by code_simp
  have series: "wealthData (netAssetData
      [tx_ex ''2024-01-05'' 100 ''Pay'' Income, tx_ex ''2024-03-05'' (- 30) ''Food'' Expense])
     = [\<lparr>point_date = ''2024-01-05'', balance = Fin 100\<rparr>,
        \<lparr>point_date = ''2024-03-05'', balance = Fin 70\<rparr>]"
    by (simp add: netAssetData_def netAssetStep_def tx_ex_def Let_def overflow_def
          overflowBound_numeral)
  from statistics_leaves_input [OF valid, of rt_ex Y 0] sorted_list series
  show ?thesis by simp
qed

text \<open>
  The heap model tells the two ways of sorting apart: sorting the input array itself
  would change it, the sorted copy does not.
\<close>

lemma sortInPlace_changes_its_array:
  "fst (sortInPlace rt_ex
          [[tx_ex ''2024-03-05'' (- 30) ''Food'' Expense, tx_ex ''2024-01-05'' 100 ''Pay'' Income]] 0) ! 0
     = [tx_ex ''2024-01-05'' 100 ''Pay'' Income, tx_ex ''2024-03-05'' (- 30) ''Food'' Expense]"
  by code_simp

section \<open>Properties of the sort\<close>















section \<open>Properties of the running balances\<close>







text \<open>The accumulators in exact arithmetic, below the overflow threshold.\<close>

lemma absSum_nonneg: "0 \<le> absSum ts"
  unfolding absSum_def by (rule sum_list_nonneg) auto




lemma absSum_filter: "absSum (filter P ts) \<le> absSum ts"
proof (induction ts)
  case Nil
  show ?case by simp
next
  case (Cons t ts)
  have "0 \<le> \<bar>numVal (amount t)\<bar>" by simp
  with Cons show ?case unfolding absSum_def by (cases "P t") (simp, simp add: add_increasing)
qed





section \<open>Properties of the calendar\<close>

text \<open>
  The day number advances by one from a valid date to the next, the year by 365 or 366
  days; from these, the bucket axes of the three periods.
\<close>

lemma daysBeforeMonth_0: "daysBeforeMonth y 0 = 0"
  by (simp add: daysBeforeMonth_def)

lemma daysBeforeMonth_Suc: "daysBeforeMonth y (Suc m) = daysBeforeMonth y m + daysInMonth y m"
  by (simp add: daysBeforeMonth_def)

lemma daysBeforeMonth_mono: "m \<le> n \<Longrightarrow> daysBeforeMonth y m \<le> daysBeforeMonth y n"
  by (induction n) (auto simp: daysBeforeMonth_Suc le_Suc_eq)

lemma daysBeforeMonth_12:
  "daysBeforeMonth y 12 = (if isLeap y then 366 else 365)"
  by (simp add: eval_nat_numeral daysBeforeMonth_Suc daysBeforeMonth_0 daysInMonth_def)

lemma daysBeforeMonth_11:
  "daysBeforeMonth y 11 = (if isLeap y then 335 else 334)"
  by (simp add: eval_nat_numeral daysBeforeMonth_Suc daysBeforeMonth_0 daysInMonth_def)

lemma div_step:
  fixes y k :: int
  assumes k: "0 < k"
  shows "y div k = (y - 1) div k + (if y mod k = 0 then 1 else 0)"
proof (cases "y mod k = 0")
  case True
  have "y - 1 = k * (y div k - 1) + (k - 1)"
    using True mult_div_mod_eq [of k y] by (simp add: algebra_simps)
  then have "(y - 1) div k = y div k - 1"
    using k by (intro int_div_pos_eq [where r = "k - 1"]) simp_all
  with True show ?thesis by simp
next
  case False
  have pos: "0 \<le> y mod k" using k by simp
  with False have "1 \<le> y mod k" by simp
  moreover have "y mod k < k" using k by simp
  moreover have "y - 1 = k * (y div k) + (y mod k - 1)"
    using mult_div_mod_eq [of k y] by simp
  ultimately have "(y - 1) div k = y div k"
    by (intro int_div_pos_eq [where r = "y mod k - 1"]) simp_all
  with False show ?thesis by simp
qed

lemma daysBeforeYear_step:
  "daysBeforeYear (y + 1) = daysBeforeYear y + (if isLeap y then 366 else 365)"
proof -
  have d4: "y div 4 = (y - 1) div 4 + (if y mod 4 = 0 then 1 else 0)"
    by (rule div_step) simp
  have d100: "y div 100 = (y - 1) div 100 + (if y mod 100 = 0 then 1 else 0)"
    by (rule div_step) simp
  have d400: "y div 400 = (y - 1) div 400 + (if y mod 400 = 0 then 1 else 0)"
    by (rule div_step) simp
  have m100: "y mod 100 = y mod 400 mod 100"
    by (simp add: mod_mod_cancel)
  have m4: "y mod 4 = y mod 100 mod 4"
    by (simp add: mod_mod_cancel)
  have c1: "y mod 400 = 0 \<Longrightarrow> y mod 100 = 0" using m100 by simp
  have c2: "y mod 100 = 0 \<Longrightarrow> y mod 4 = 0" using m4 by simp
  have "daysBeforeYear (y + 1) =
      365 * (y + 1 - 1970) + (y div 4 - 492) - (y div 100 - 19) + (y div 400 - 4)"
    by (simp add: daysBeforeYear_def)
  also have "\<dots> = daysBeforeYear y + (if isLeap y then 366 else 365)"
    unfolding daysBeforeYear_def isLeap_def d4 d100 d400
    using c1 c2 by auto
  finally show ?thesis .
qed


lemma daysInMonth_pos: "1 \<le> daysInMonth y m"
  by (simp add: daysInMonth_def)

lemma nextDay_step:
  assumes "validDate d"
  shows "validDate (nextDay d) \<and> dayNumber (nextDay d) = dayNumber d + 1
         \<and> time_ms (nextDay d) = time_ms d"
proof -
  from assms have v: "month d < 12" "1 \<le> day d" "day d \<le> daysInMonth (year d) (month d)"
      "0 \<le> time_ms d" "time_ms d < 86400000"
    by (simp_all add: validDate_def)
  show ?thesis
  proof (cases "day d < daysInMonth (year d) (month d)")
    case True
    with v show ?thesis by (simp add: nextDay_def validDate_def dayNumber_def)
  next
    case False
    with v have last: "day d = daysInMonth (year d) (month d)" by simp
    show ?thesis
    proof (cases "month d < 11")
      case True
      with v False last show ?thesis
        using daysInMonth_pos [of "year d" "month d + 1"]
        by (simp add: nextDay_def validDate_def dayNumber_def daysBeforeMonth_Suc)
    next
      case m: False
      with v have m11: "month d = 11" by simp
      with last have d31: "day d = 31" by (simp add: daysInMonth_def)
      have "int (daysBeforeMonth (year d) 11) + 31 = (if isLeap (year d) then 366 else 365)"
        by (simp add: daysBeforeMonth_11)
      then show ?thesis
        using v m11 d31 daysBeforeYear_step [of "year d"]
        by (simp add: nextDay_def validDate_def dayNumber_def daysBeforeMonth_0 daysInMonth_def
              split: if_splits)
    qed
  qed
qed

lemma prevDay_step:
  assumes "validDate d"
  shows "validDate (prevDay d) \<and> dayNumber (prevDay d) = dayNumber d - 1
         \<and> time_ms (prevDay d) = time_ms d"
proof -
  from assms have v: "month d < 12" "1 \<le> day d" "day d \<le> daysInMonth (year d) (month d)"
      "0 \<le> time_ms d" "time_ms d < 86400000"
    by (simp_all add: validDate_def)
  show ?thesis
  proof (cases "1 < day d")
    case True
    with v show ?thesis by (auto simp add: prevDay_def validDate_def dayNumber_def)
  next
    case False
    with v have first: "day d = 1" by simp
    show ?thesis
    proof (cases "0 < month d")
      case True
      then obtain m where m: "month d = Suc m" by (cases "month d") simp_all
      with v first show ?thesis
        using daysInMonth_pos [of "year d" m]
        by (simp add: prevDay_def validDate_def dayNumber_def daysBeforeMonth_Suc)
    next
      case m: False
      then have m0: "month d = 0" by simp
      have "int (daysBeforeMonth (year d - 1) 11) + 31
          = (if isLeap (year d - 1) then 366 else 365)"
        by (simp add: daysBeforeMonth_11)
      then show ?thesis
        using v m0 first daysBeforeYear_step [of "year d - 1"]
        by (simp add: prevDay_def validDate_def dayNumber_def daysBeforeMonth_0 daysInMonth_def
              split: if_splits)
    qed
  qed
qed

lemma funpow_nextDay:
  "validDate d \<Longrightarrow>
   validDate ((nextDay ^^ n) d) \<and> dayNumber ((nextDay ^^ n) d) = dayNumber d + int n
   \<and> time_ms ((nextDay ^^ n) d) = time_ms d"
proof (induction n)
  case 0
  then show ?case by simp
next
  case (Suc n)
  from Suc.IH [OF Suc.prems] nextDay_step [of "(nextDay ^^ n) d"]
  show ?case by simp
qed

lemma funpow_prevDay:
  "validDate d \<Longrightarrow>
   validDate ((prevDay ^^ n) d) \<and> dayNumber ((prevDay ^^ n) d) = dayNumber d - int n
   \<and> time_ms ((prevDay ^^ n) d) = time_ms d"
proof (induction n)
  case 0
  then show ?case by simp
next
  case (Suc n)
  from Suc.IH [OF Suc.prems] prevDay_step [of "(prevDay ^^ n) d"]
  show ?case by simp
qed

lemma addDays_step:
  assumes "validDate d"
  shows "validDate (addDays d n) \<and> dayNumber (addDays d n) = dayNumber d + n
         \<and> time_ms (addDays d n) = time_ms d"
proof (cases "0 \<le> n")
  case True
  with funpow_nextDay [OF assms, of "nat n"] show ?thesis by (simp add: addDays_def)
next
  case False
  with funpow_prevDay [OF assms, of "nat (- n)"] show ?thesis by (simp add: addDays_def)
qed


lemma length_daysFrom: "length (daysFrom x n) = n"
  by (induction n arbitrary: x) simp_all

lemma getDay_daysFrom:
  "validDate x \<Longrightarrow>
   map getDay (daysFrom x n) = map (\<lambda>i. nat ((dayNumber x + 4 + int i) mod 7)) [0..<n]"
proof (induction n arbitrary: x)
  case 0
  show ?case by simp
next
  case (Suc n)
  from nextDay_step [OF Suc.prems]
  have v: "validDate (nextDay x)" and dn: "dayNumber (nextDay x) = dayNumber x + 1" by simp_all
  have "map getDay (daysFrom (nextDay x) n) =
      map (\<lambda>i. nat ((dayNumber x + 4 + int (Suc i)) mod 7)) [0..<n]"
    using Suc.IH [OF v] by (simp add: dn add.commute add.left_commute)
  also have "\<dots> = map (\<lambda>i. nat ((dayNumber x + 4 + int i) mod 7)) (map Suc [0..<n])"
    by simp
  finally have rest: "map getDay (daysFrom (nextDay x) n) =
      map (\<lambda>i. nat ((dayNumber x + 4 + int i) mod 7)) [Suc 0..<Suc n]"
    by (simp add: map_Suc_upt del: upt_Suc)
  have first: "getDay x = nat ((dayNumber x + 4 + int 0) mod 7)"
    by (simp add: getDay_def)
  show ?case
    unfolding daysFrom.simps list.map first rest
    by (simp add: upt_conv_Cons del: upt_Suc)
qed

lemma week_points:
  assumes "validDate d"
  shows "\<exists>points. eachDayOfInterval (startOfWeek d) (endOfWeek d) = Inr points
           \<and> map formatEEE points = dayNames"
proof -
  let ?w = "(dayNumber d + 4) mod 7"
  have v0: "validDate (d\<lparr>time_ms := 0\<rparr>)" "validDate (d\<lparr>time_ms := 86399999\<rparr>)"
    using assms by (simp_all add: validDate_def)
  have dn0: "dayNumber (d\<lparr>time_ms := 0\<rparr>) = dayNumber d"
      "dayNumber (d\<lparr>time_ms := 86399999\<rparr>) = dayNumber d"
    by (simp_all add: dayNumber_def)
  have w: "int (getDay d) = ?w" by (simp add: getDay_def)
  from addDays_step [OF v0(1), of "- int (getDay d)"]
  have s: "validDate (startOfWeek d)" "dayNumber (startOfWeek d) = dayNumber d - ?w"
      "time_ms (startOfWeek d) = 0"
    by (simp_all add: startOfWeek_def dn0 w)
  from addDays_step [OF v0(2), of "6 - int (getDay d)"]
  have e: "dayNumber (endOfWeek d) = dayNumber d + 6 - ?w" "time_ms (endOfWeek d) = 86399999"
    by (simp_all add: endOfWeek_def dn0 w)
  have le: "getTime (startOfWeek d) \<le> getTime (endOfWeek d)"
    by (simp add: getTime_def s e)
  have n: "nat (dayNumber (endOfWeek d) - dayNumber (startOfWeek d) + 1) = 7"
    by (simp add: s e)
  have same: "(startOfWeek d)\<lparr>time_ms := 0\<rparr> = startOfWeek d"
    using s(3) by simp
  have zero: "(dayNumber (startOfWeek d) + 4) mod 7 = 0"
    unfolding s(2) by presburger
  have off: "nat ((dayNumber (startOfWeek d) + 4 + int i) mod 7) = i" if "i < 7" for i
  proof -
    have "(dayNumber (startOfWeek d) + 4 + int i) mod 7
        = ((dayNumber (startOfWeek d) + 4) mod 7 + int i) mod 7"
      by (simp add: mod_add_left_eq)
    also have "\<dots> = int i" using zero that by simp
    finally show ?thesis by simp
  qed
  have "map (\<lambda>i. nat ((dayNumber (startOfWeek d) + 4 + int i) mod 7)) [0..<7]
      = map (\<lambda>i. i) [0..<7]"
    by (rule map_cong) (simp_all add: off)
  also have "\<dots> = [0, 1, 2, 3, 4, 5, 6]"
    by (simp add: upt_rec [of _ "numeral _"] upt_rec [of _ "Suc _"])
  finally have days: "map getDay (daysFrom (startOfWeek d) 7) = [0, 1, 2, 3, 4, 5, 6]"
    unfolding getDay_daysFrom [OF s(1)] .
  have "map formatEEE (daysFrom (startOfWeek d) 7)
      = map (\<lambda>k. dayNames ! k) (map getDay (daysFrom (startOfWeek d) 7))"
    by (simp add: formatEEE_def)
  also have "\<dots> = dayNames"
    unfolding days by (simp add: dayNames_def)
  finally have "map formatEEE (daysFrom (startOfWeek d) 7) = dayNames" .
  then show ?thesis
    by (simp add: eachDayOfInterval_def le n same)
qed


lemma length_monthsFrom: "length (monthsFrom x n) = n"
  by (induction n arbitrary: x) simp_all

lemma month_nextMonth: "month x < 12 \<Longrightarrow> month (nextMonth x) = (month x + 1) mod 12"
proof (cases "month x < 11")
  case True
  then show ?thesis by (simp add: nextMonth_def)
next
  case False
  assume "month x < 12"
  with False have "month x = 11" by simp
  then show ?thesis by (simp add: nextMonth_def)
qed

lemma shifted_mod12_inj:
  fixes m i j :: nat
  assumes "i \<le> j" "j < 6" "(m + i) mod 12 = (m + j) mod 12"
  shows "i = j"
proof (rule ccontr)
  assume "i \<noteq> j"
  with assms(1) have pos: "0 < j - i" by simp
  have "(m + j) mod 12 = (m + i) mod 12" using assms(3) by simp
  then have "12 dvd (m + j) - (m + i)"
    using assms(1) by (simp add: mod_eq_dvd_iff_nat)
  then have "12 dvd j - i" by simp
  moreover have "j - i < 12" using assms(2) by simp
  ultimately show False using pos nat_dvd_not_less by blast
qed

lemma months_monthsFrom:
  "month x < 12 \<Longrightarrow>
   map month (monthsFrom x n) = map (\<lambda>i. (month x + i) mod 12) [0..<n]"
proof (induction n arbitrary: x)
  case 0
  show ?case by simp
next
  case (Suc n)
  have lt: "month (nextMonth x) < 12" by (simp add: month_nextMonth Suc.prems)
  have "map month (monthsFrom (nextMonth x) n)
      = map (\<lambda>i. ((month x + 1) mod 12 + i) mod 12) [0..<n]"
    using Suc.IH [OF lt] by (simp add: month_nextMonth Suc.prems)
  also have "\<dots> = map (\<lambda>i. (month x + Suc i) mod 12) [0..<n]"
    by (simp add: mod_add_left_eq)
  also have "\<dots> = map (\<lambda>i. (month x + i) mod 12) [Suc 0..<Suc n]"
    by (simp add: map_Suc_upt [symmetric] del: upt_Suc)
  finally have rest: "map month (monthsFrom (nextMonth x) n)
      = map (\<lambda>i. (month x + i) mod 12) [Suc 0..<Suc n]" .
  have first: "month x = (month x + 0) mod 12" using Suc.prems by simp
  have "map month (monthsFrom x (Suc n)) = month x # map month (monthsFrom (nextMonth x) n)"
    by simp
  also have "\<dots> = (month x + 0) mod 12 # map (\<lambda>i. (month x + i) mod 12) [Suc 0..<Suc n]"
    using first rest by simp
  also have "\<dots> = map (\<lambda>i. (month x + i) mod 12) [0..<Suc n]"
    by (simp add: upt_conv_Cons del: upt_Suc)
  finally show ?case .
qed

lemma formatMMM_months:
  "map formatMMM ds = map (\<lambda>k. monthNames ! (k mod 12)) (map month ds)"
  by (simp add: formatMMM_def)

lemma length_monthNames: "length monthNames = 12"
  by (simp add: monthNames_def)

lemma distinct_monthNames: "distinct monthNames"
  by (simp add: monthNames_def)

lemma year_labels:
  assumes "month x = 0"
  shows "map formatMMM (monthsFrom x 12) = monthNames"
proof -
  have "map month (monthsFrom x 12) = map (\<lambda>i. (0 + i) mod 12) [0..<12]"
    using months_monthsFrom [of x 12] assms by simp
  also have "\<dots> = [0..<12]"
    by (rule map_idI) simp
  finally have "map formatMMM (monthsFrom x 12) = map (\<lambda>k. monthNames ! (k mod 12)) [0..<12]"
    by (simp only: formatMMM_months)
  also have "\<dots> = map (\<lambda>k. monthNames ! k) [0..<length monthNames]"
    unfolding length_monthNames by (rule map_cong) simp_all
  also have "\<dots> = monthNames" by (rule map_nth)
  finally show ?thesis .
qed

lemma six_labels:
  assumes "month x < 12"
  shows "distinct (map formatMMM (monthsFrom x 6))"
proof -
  let ?idx = "map (\<lambda>i. (month x + i) mod 12) [0..<6]"
  have inj: "inj_on (\<lambda>i. (month x + i) mod 12) (set [0..<6])"
  proof (rule inj_onI)
    fix i j assume "i \<in> set [0..<6]" "j \<in> set [0..<6]"
      and eq: "(month x + i) mod 12 = (month x + j) mod 12"
    then have b: "i < 6" "j < 6" by simp_all
    show "i = j"
    proof (cases "i \<le> j")
      case True
      from shifted_mod12_inj [OF True b(2) eq] show ?thesis .
    next
      case False
      then have "j \<le> i" by simp
      from shifted_mod12_inj [OF this b(1) eq [symmetric]] show ?thesis by simp
    qed
  qed
  have d: "distinct ?idx"
    by (simp only: distinct_map distinct_upt inj simp_thms)
  have lt: "\<forall>k \<in> set ?idx. k < length monthNames"
    by (simp add: length_monthNames)
  have "inj_on (\<lambda>k. monthNames ! k) (set ?idx)"
    by (rule inj_on_nth [OF distinct_monthNames lt])
  with d have "distinct (map (\<lambda>k. monthNames ! k) ?idx)"
    by (simp only: distinct_map simp_thms)
  moreover have "map (\<lambda>k. monthNames ! (k mod 12)) ?idx = map (\<lambda>k. monthNames ! k) ?idx"
    by (rule map_cong) auto
  ultimately show ?thesis
    by (simp only: formatMMM_months months_monthsFrom [OF assms])
qed

lemma year_points:
  "eachMonthOfInterval (startOfYear d) (endOfYear d)
     = Inr (monthsFrom (d\<lparr>month := 0, day := 1, time_ms := 0\<rparr>) 12)
   \<and> map formatMMM (monthsFrom (d\<lparr>month := 0, day := 1, time_ms := 0\<rparr>) 12) = monthNames"
proof -
  have "dayNumber (startOfYear d) \<le> dayNumber (endOfYear d)"
    by (simp add: dayNumber_def startOfYear_def endOfYear_def daysBeforeMonth_0)
  then have le: "getTime (startOfYear d) \<le> getTime (endOfYear d)"
    by (simp add: getTime_def startOfYear_def endOfYear_def)
  have n: "nat (year (endOfYear d) * 12 + int (month (endOfYear d))
              - (year (startOfYear d) * 12 + int (month (startOfYear d))) + 1) = 12"
    by (simp add: startOfYear_def endOfYear_def)
  have st: "(startOfYear d)\<lparr>day := 1, time_ms := 0\<rparr> = d\<lparr>month := 0, day := 1, time_ms := 0\<rparr>"
    by (simp add: startOfYear_def)
  have pts: "eachMonthOfInterval (startOfYear d) (endOfYear d)
     = Inr (monthsFrom (d\<lparr>month := 0, day := 1, time_ms := 0\<rparr>) 12)"
    unfolding eachMonthOfInterval_def n st using le by simp
  show ?thesis
    using pts year_labels [of "d\<lparr>month := 0, day := 1, time_ms := 0\<rparr>"] by simp
qed


lemma subMonths5:
  assumes "month d < 12"
  shows "year (subMonths d 5) = (if 5 \<le> month d then year d else year d - 1)
     \<and> month (subMonths d 5) = (if 5 \<le> month d then month d - 5 else month d + 7)"
proof (cases "5 \<le> month d")
  case True
  let ?t = "year d * 12 + int (month d) + - 5"
  have t: "?t = 12 * year d + int (month d - 5)" using True by simp
  have r: "0 \<le> int (month d - 5)" "int (month d - 5) < 12" using assms by simp_all
  have "?t div 12 = year d" "?t mod 12 = int (month d - 5)"
    using int_div_pos_eq [OF t r] int_mod_pos_eq [OF t r] by simp_all
  with True show ?thesis
    by (simp add: subMonths_def addMonths_def Let_def)
next
  case False
  let ?t = "year d * 12 + int (month d) + - 5"
  have t: "?t = 12 * (year d - 1) + int (month d + 7)" by simp
  have r: "0 \<le> int (month d + 7)" "int (month d + 7) < 12" using False by simp_all
  have "?t div 12 = year d - 1" "?t mod 12 = int (month d + 7)"
    using int_div_pos_eq [OF t r] int_mod_pos_eq [OF t r] by simp_all
  with False show ?thesis
    by (simp add: subMonths_def addMonths_def Let_def)
qed

lemma six_points:
  assumes m: "month d < 12"
  shows "\<exists>points. eachMonthOfInterval (startOfMonth (subMonths d 5)) (endOfMonth d) = Inr points
           \<and> length points = 6 \<and> distinct (map formatMMM points)"
proof -
  let ?s = "startOfMonth (subMonths d 5)"
  let ?e = "endOfMonth d"
  have ys: "year ?s = (if 5 \<le> month d then year d else year d - 1)"
    and ms: "month ?s = (if 5 \<le> month d then month d - 5 else month d + 7)"
    using subMonths5 [OF m] by (simp_all add: startOfMonth_def)
  have ds: "day ?s = 1" "time_ms ?s = 0" by (simp_all add: startOfMonth_def)
  have e: "year ?e = year d" "month ?e = month d" "day ?e = daysInMonth (year d) (month d)"
      "time_ms ?e = 86399999"
    by (simp_all add: endOfMonth_def)
  have dn: "dayNumber ?s \<le> dayNumber ?e"
  proof (cases "5 \<le> month d")
    case True
    have "daysBeforeMonth (year d) (month d - 5) \<le> daysBeforeMonth (year d) (month d)"
      by (rule daysBeforeMonth_mono) simp
    then show ?thesis
      using True daysInMonth_pos [of "year d" "month d"]
      by (simp add: dayNumber_def ys ms ds e)
  next
    case False
    have "daysBeforeMonth (year d - 1) (month d + 7) \<le> daysBeforeMonth (year d - 1) 12"
      by (rule daysBeforeMonth_mono) (use False in simp)
    then have "int (daysBeforeMonth (year d - 1) (month d + 7))
        \<le> (if isLeap (year d - 1) then 366 else 365)"
      by (simp add: daysBeforeMonth_12 split: if_splits)
    then show ?thesis
      using False daysInMonth_pos [of "year d" "month d"] daysBeforeYear_step [of "year d - 1"]
      by (simp add: dayNumber_def ys ms ds e split: if_splits)
  qed
  have le: "getTime ?s \<le> getTime ?e"
  proof -
    have "dayNumber ?s * 86400000 \<le> dayNumber ?e * 86400000"
      using dn by simp
    then show ?thesis by (simp add: getTime_def ds e)
  qed
  have n: "nat (year ?e * 12 + int (month ?e) - (year ?s * 12 + int (month ?s)) + 1) = 6"
    using m by (simp add: ys ms e)
  have lt: "month (?s\<lparr>day := 1, time_ms := 0\<rparr>) < 12"
    using m by (auto simp add: ms)
  have "eachMonthOfInterval ?s ?e = Inr (monthsFrom (?s\<lparr>day := 1, time_ms := 0\<rparr>) 6)"
    unfolding eachMonthOfInterval_def n using le by simp
  then show ?thesis
    using six_labels [OF lt] by (simp add: length_monthsFrom)
qed

lemma month_addMonths: "month (addMonths d n) < 12"
  by (simp add: addMonths_def Let_def nat_less_iff)

section \<open>Properties of the spending analysis\<close>

lemma keys_assoc_set:
  "map fst (assoc_set m k v) = (if k \<in> set (map fst m) then map fst m else map fst m @ [k])"
proof (induction m)
  case Nil
  show ?case by simp
next
  case (Cons p m)
  obtain k' v' where p: "p = (k', v')" by (cases p)
  show ?case
  proof (cases "k' = k")
    case True
    with p show ?thesis by simp
  next
    case False
    with p Cons.IH show ?thesis by (cases "k \<in> set (map fst m)") simp_all
  qed
qed

lemma assoc_set_fresh: "k \<notin> set (map fst m) \<Longrightarrow> assoc_set m k v = m @ [(k, v)]"
  by (induction m) auto

lemma fold_assoc_set_fresh:
  "distinct (map fst m @ map f ps) \<Longrightarrow>
   fold (\<lambda>p acc. assoc_set acc (f p) (g p)) ps m = m @ map (\<lambda>p. (f p, g p)) ps"
proof (induction ps arbitrary: m)
  case Nil
  show ?case by simp
next
  case (Cons p ps)
  from Cons.prems have fresh: "f p \<notin> set (map fst m)" by auto
  from Cons.prems have "distinct (map fst (m @ [(f p, g p)]) @ map f ps)" by auto
  from Cons.IH [OF this] show ?case
    by (simp add: assoc_set_fresh [OF fresh])
qed

lemma seedBuckets_distinct:
  "distinct (map fmt points) \<Longrightarrow>
   seedBuckets fmt points = map (\<lambda>p. (fmt p, [(''name'', JStr (fmt p))])) points"
  using fold_assoc_set_fresh [of "[]" fmt points "\<lambda>p. [(''name'', JStr (fmt p))]"]
  by (simp add: seedBuckets_def)

lemma addToBucket_step:
  assumes "parseDate rt (date tx) \<noteq> None"
  shows "\<exists>m'. addToBucket rt fmt tx m = Inr m' \<and> map fst m' = map fst m
           \<and> (\<forall>k. k \<noteq> txLabel rt fmt tx \<longrightarrow> map_of m' k = map_of m k)"
proof -
  from assms obtain d where d: "parseDate rt (date tx) = Some d" by auto
  show ?thesis
  proof (cases "map_of m (fmt d)")
    case None
    with d show ?thesis by (simp add: addToBucket_def)
  next
    case (Some entry)
    then have "fmt d \<in> set (map fst m)"
      by (metis map_of_eq_None_iff option.distinct(1) set_map)
    with d Some show ?thesis
      by (simp add: addToBucket_def keys_assoc_set map_of_assoc_set txLabel_def)
  qed
qed

lemma forEachE_addToBucket:
  "\<forall>tx \<in> set txs. parseDate rt (date tx) \<noteq> None \<Longrightarrow>
   \<exists>m'. forEachE (addToBucket rt fmt) txs m = Inr m' \<and> map fst m' = map fst m
      \<and> (\<forall>k. (\<forall>tx \<in> set txs. txLabel rt fmt tx \<noteq> k) \<longrightarrow> map_of m' k = map_of m k)"
proof (induction txs arbitrary: m)
  case Nil
  show ?case by simp
next
  case (Cons tx txs)
  from Cons.prems have p: "parseDate rt (date tx) \<noteq> None" by simp
  from addToBucket_step [OF p, of fmt m] obtain m1 where
    m1: "addToBucket rt fmt tx m = Inr m1" "map fst m1 = map fst m"
      "\<forall>k. k \<noteq> txLabel rt fmt tx \<longrightarrow> map_of m1 k = map_of m k"
    by blast
  from Cons.prems have "\<forall>tx \<in> set txs. parseDate rt (date tx) \<noteq> None" by simp
  from Cons.IH [OF this, of m1] obtain m' where
    m': "forEachE (addToBucket rt fmt) txs m1 = Inr m'" "map fst m' = map fst m1"
      "\<forall>k. (\<forall>tx \<in> set txs. txLabel rt fmt tx \<noteq> k) \<longrightarrow> map_of m' k = map_of m1 k"
    by blast
  have "forEachE (addToBucket rt fmt) (tx # txs) m = Inr m'"
    using m1(1) m'(1) by simp
  moreover have "map fst m' = map fst m" using m1(2) m'(2) by simp
  moreover have "map_of m' k = map_of m k"
    if "\<forall>t \<in> set (tx # txs). txLabel rt fmt t \<noteq> k" for k
  proof -
    from that have "k \<noteq> txLabel rt fmt tx" "\<forall>t \<in> set txs. txLabel rt fmt t \<noteq> k" by auto
    with m1(3) m'(3) show ?thesis by simp
  qed
  ultimately show ?case by blast
qed

lemma relevantTx_parses: "relevantTx rt c tx \<Longrightarrow> parseDate rt (date tx) \<noteq> None"
  by (auto simp: relevantTx_def split: if_splits option.splits)

lemma spendingChartData_from_points:
  assumes su: "periodSetup rt period dateOffset = Some c"
    and pts: "dataPoints c = Inr points"
    and dist: "distinct (map (formatLabel c) points)"
  shows "\<exists>out. spendingChartData rt period dateOffset txs = Inr out
     \<and> length out = length points
     \<and> (\<forall>i < length points.
           (\<forall>tx \<in> set txs. relevantTx rt c tx \<longrightarrow>
                txLabel rt (formatLabel c) tx \<noteq> formatLabel c (points ! i))
           \<longrightarrow> out ! i = [(''name'', JStr (formatLabel c (points ! i)))])"
proof -
  let ?fmt = "formatLabel c"
  let ?rel = "filter (relevantTx rt c) txs"
  let ?m0 = "seedBuckets ?fmt points"
  have m0: "?m0 = map (\<lambda>p. (?fmt p, [(''name'', JStr (?fmt p))])) points"
    by (rule seedBuckets_distinct [OF dist])
  have keys0: "map fst ?m0 = map ?fmt points"
    by (simp add: m0 comp_def)
  have "\<forall>tx \<in> set ?rel. parseDate rt (date tx) \<noteq> None"
    using relevantTx_parses [of rt c] by auto
  from forEachE_addToBucket [OF this, of ?fmt ?m0] obtain m' where
    m': "forEachE (addToBucket rt ?fmt) ?rel ?m0 = Inr m'" "map fst m' = map fst ?m0"
      "\<forall>k. (\<forall>tx \<in> set ?rel. txLabel rt ?fmt tx \<noteq> k) \<longrightarrow> map_of m' k = map_of ?m0 k"
    by blast
  have out: "spendingChartData rt period dateOffset txs = Inr (map snd m')"
    using su pts m'(1) by (simp add: spendingChartData_def)
  have len: "length m' = length points"
    using m'(2) keys0 by (metis length_map)
  have untouched: "map snd m' ! i = [(''name'', JStr (?fmt (points ! i)))]"
    if i: "i < length points"
      and none: "\<forall>tx \<in> set txs. relevantTx rt c tx \<longrightarrow> txLabel rt ?fmt tx \<noteq> ?fmt (points ! i)"
    for i
  proof -
    let ?k = "?fmt (points ! i)"
    have d': "distinct (map fst m')" using m'(2) keys0 dist by simp
    have ki: "fst (m' ! i) = ?k"
      using m'(2) keys0 i len by (metis nth_map)
    have "m' ! i \<in> set m'" using i len by simp
    then have "(?k, snd (m' ! i)) \<in> set m'" using ki by (metis prod.collapse)
    then have "map_of m' ?k = Some (snd (m' ! i))"
      using d' by simp
    moreover have "map_of m' ?k = map_of ?m0 ?k"
      using m'(3) none by simp
    moreover have "map_of ?m0 ?k = Some [(''name'', JStr ?k)]"
    proof -
      have "(?k, [(''name'', JStr ?k)]) \<in> set ?m0"
        unfolding m0 using i by (simp add: image_iff) (metis nth_mem)
      moreover have "distinct (map fst ?m0)" using keys0 dist by simp
      ultimately show ?thesis by simp
    qed
    ultimately show ?thesis using i len by simp
  qed
  show ?thesis
    using out len untouched by simp
qed

lemma empty_bucket_reads:
  "map_of [(''name'', JStr l)] ''total'' = None
   \<and> bucketTotal [(''name'', JStr l)] = Fin 0
   \<and> categoryTotals [(''name'', JStr l)] = Fin 0"
  by (simp add: bucketTotal_def categoryTotals_def categoryKey_def or0_def getProp_def
        inheritedName_def prototypeNames_def)

lemma distinct_dayNames: "distinct dayNames"
  by (simp add: dayNames_def)

lemma periodSetup_points:
  assumes "validDate (now rt)" "period \<noteq> M"
  shows "\<exists>c points. periodSetup rt period dateOffset = Some c \<and> dataPoints c = Inr points
     \<and> length points = bucketCount period \<and> distinct (map (formatLabel c) points)
     \<and> (period = W \<longrightarrow> map (formatLabel c) points = dayNames)
     \<and> (period = Y \<longrightarrow> map (formatLabel c) points = monthNames)"
proof (cases period)
  case W
  have "validDate (addWeeks (now rt) dateOffset)"
    using addDays_step [OF assms(1)] by (simp add: addWeeks_def)
  from week_points [OF this] obtain points where
    p: "eachDayOfInterval (startOfWeek (addWeeks (now rt) dateOffset))
          (endOfWeek (addWeeks (now rt) dateOffset)) = Inr points"
       "map formatEEE points = dayNames"
    by blast
  have "length (map formatEEE points) = length dayNames"
    by (simp only: p(2))
  then have "length points = 7"
    by (simp add: dayNames_def)
  with p W show ?thesis
    by (simp add: periodSetup_def Let_def bucketCount_def distinct_dayNames)
next
  case M
  with assms(2) show ?thesis by simp
next
  case SixM
  from six_points [OF month_addMonths, of "now rt" "dateOffset * 6"] obtain points where
    p: "eachMonthOfInterval (startOfMonth (subMonths (addMonths (now rt) (dateOffset * 6)) 5))
          (endOfMonth (addMonths (now rt) (dateOffset * 6))) = Inr points"
       "length points = 6" "distinct (map formatMMM points)"
    by blast
  with SixM show ?thesis
    by (simp add: periodSetup_def Let_def bucketCount_def)
next
  case Y
  from year_points [of "addYears (now rt) dateOffset"] Y
  show ?thesis
    by (simp add: periodSetup_def Let_def bucketCount_def length_monthsFrom distinct_monthNames)
qed


text \<open>
  Claim C4, as stated, fails: the entry of a bucket without transactions holds its name
  and nothing else. For the week of the example, with no transactions, the seven
  entries have no \<open>total\<close> property, so no total equals 0.
\<close>

theorem empty_week_counterexample:
  "spendingChartData rt_ex W 0 [] =
     Inr [[(''name'', JStr ''Sun'')], [(''name'', JStr ''Mon'')], [(''name'', JStr ''Tue'')],
          [(''name'', JStr ''Wed'')], [(''name'', JStr ''Thu'')], [(''name'', JStr ''Fri'')],
          [(''name'', JStr ''Sat'')]]
   \<and> map_of [(''name'', JStr ''Sun'')] ''total'' \<noteq> Some (JNum (Fin 0))"
  by code_simp


text \<open>
  Claim C4, amended. For Week, SixMonth and Year and every offset and transaction list
  (the current instant being a valid date), the aggregation makes one entry per bucket
  label (7, 6 and 12 entries; the labels are distinct, the weekday names from Sunday for
  Week and the month names from January for Year), in the order of the axis. A bucket
  that no expense of the interval falls into still appears in the output; its entry
  holds the label under \<open>name\<close> and no other property: no \<open>total\<close> is stored, and
  the total and the category sum read as 0 only through the default-zero lookup.
\<close>

theorem spendingChartData_buckets:
  assumes "validDate (now rt)" "period \<noteq> M"
  shows "\<exists>c points out. periodSetup rt period dateOffset = Some c \<and> dataPoints c = Inr points
     \<and> length points = bucketCount period \<and> distinct (map (formatLabel c) points)
     \<and> (period = W \<longrightarrow> map (formatLabel c) points = dayNames)
     \<and> (period = Y \<longrightarrow> map (formatLabel c) points = monthNames)
     \<and> spendingChartData rt period dateOffset txs = Inr out
     \<and> length out = bucketCount period
     \<and> (\<forall>i < bucketCount period.
           (\<forall>tx \<in> set txs. relevantTx rt c tx \<longrightarrow>
                txLabel rt (formatLabel c) tx \<noteq> formatLabel c (points ! i))
           \<longrightarrow> out ! i = [(''name'', JStr (formatLabel c (points ! i)))]
               \<and> map_of (out ! i) ''total'' = None
               \<and> bucketTotal (out ! i) = Fin 0
               \<and> categoryTotals (out ! i) = Fin 0)"
proof -
  from periodSetup_points [OF assms, of dateOffset] obtain c points where
    c: "periodSetup rt period dateOffset = Some c" "dataPoints c = Inr points"
       "length points = bucketCount period" "distinct (map (formatLabel c) points)"
       "period = W \<longrightarrow> map (formatLabel c) points = dayNames"
       "period = Y \<longrightarrow> map (formatLabel c) points = monthNames"
    by blast
  from spendingChartData_from_points [OF c(1,2,4), of txs] obtain out where
    out: "spendingChartData rt period dateOffset txs = Inr out" "length out = length points"
      "\<forall>i < length points.
           (\<forall>tx \<in> set txs. relevantTx rt c tx \<longrightarrow>
                txLabel rt (formatLabel c) tx \<noteq> formatLabel c (points ! i))
           \<longrightarrow> out ! i = [(''name'', JStr (formatLabel c (points ! i)))]"
    by blast
  have empty: "out ! i = [(''name'', JStr (formatLabel c (points ! i)))]
               \<and> map_of (out ! i) ''total'' = None
               \<and> bucketTotal (out ! i) = Fin 0
               \<and> categoryTotals (out ! i) = Fin 0"
    if "i < bucketCount period"
      "\<forall>tx \<in> set txs. relevantTx rt c tx \<longrightarrow>
                txLabel rt (formatLabel c) tx \<noteq> formatLabel c (points ! i)" for i
  proof -
    from that out(3) c(3) have "out ! i = [(''name'', JStr (formatLabel c (points ! i)))]"
      by simp
    then show ?thesis by (simp only: empty_bucket_reads simp_thms)
  qed
  show ?thesis
  proof (intro exI conjI)
    show "periodSetup rt period dateOffset = Some c" by (rule c(1))
    show "dataPoints c = Inr points" by (rule c(2))
    show "length points = bucketCount period" by (rule c(3))
    show "distinct (map (formatLabel c) points)" by (rule c(4))
    show "period = W \<longrightarrow> map (formatLabel c) points = dayNames" by (rule c(5))
    show "period = Y \<longrightarrow> map (formatLabel c) points = monthNames" by (rule c(6))
    show "spendingChartData rt period dateOffset txs = Inr out" by (rule out(1))
    show "length out = bucketCount period" using out(2) c(3) by simp
    show "\<forall>i < bucketCount period.
           (\<forall>tx \<in> set txs. relevantTx rt c tx \<longrightarrow>
                txLabel rt (formatLabel c) tx \<noteq> formatLabel c (points ! i))
           \<longrightarrow> out ! i = [(''name'', JStr (formatLabel c (points ! i)))]
               \<and> map_of (out ! i) ''total'' = None
               \<and> bucketTotal (out ! i) = Fin 0
               \<and> categoryTotals (out ! i) = Fin 0"
      using empty by blast
  qed
qed

theorem spendingChartData_buckets_witness:
  "\<exists>out. spendingChartData rt_ex W 0 [tx_ex ''2024-06-12'' (- 30) ''Food'' Expense] = Inr out
     \<and> length out = 7
     \<and> out ! 0 = [(''name'', JStr ''Sun'')]
     \<and> map_of (out ! 0) ''total'' = None"
proof -
  let ?txs = "[tx_ex ''2024-06-12'' (- 30) ''Food'' Expense]"
  have v: "validDate (now rt_ex)"
    by (simp add: rt_ex_def validDate_def daysInMonth_def)
  have p: "W \<noteq> M" by simp
  from spendingChartData_buckets [OF v p, of 0 ?txs] obtain c points out where
    c: "periodSetup rt_ex W 0 = Some c" "length points = bucketCount W"
       "map (formatLabel c) points = dayNames"
    and out: "spendingChartData rt_ex W 0 ?txs = Inr out" "length out = bucketCount W"
      "\<forall>i < bucketCount W.
           (\<forall>tx \<in> set ?txs. relevantTx rt_ex c tx \<longrightarrow>
                txLabel rt_ex (formatLabel c) tx \<noteq> formatLabel c (points ! i))
           \<longrightarrow> out ! i = [(''name'', JStr (formatLabel c (points ! i)))]
               \<and> map_of (out ! i) ''total'' = None
               \<and> bucketTotal (out ! i) = Fin 0
               \<and> categoryTotals (out ! i) = Fin 0"
    by blast
  have n: "bucketCount W = 7" by (simp add: bucketCount_def)
  have fmt: "formatLabel c = formatEEE"
    using c(1) by (auto simp: periodSetup_def Let_def)
  have "map (formatLabel c) points ! 0 = formatLabel c (points ! 0)"
    using c(2) n by (simp add: nth_map)
  then have sun: "formatLabel c (points ! 0) = ''Sun''"
    by (simp add: c(3) dayNames_def)
  have wed: "txLabel rt_ex formatEEE (tx_ex ''2024-06-12'' (- 30) ''Food'' Expense) = ''Wed''"
    by code_simp
  have "out ! 0 = [(''name'', JStr ''Sun'')] \<and> map_of (out ! 0) ''total'' = None"
    using out(3) n sun wed fmt by simp
  with out(1,2) n show ?thesis by simp
qed

subsection \<open>The bucket total and the category sum\<close>

text \<open>
  As long as no expense has a category named \<open>name\<close> or \<open>total\<close> or like a member of
  \<open>Object.prototype\<close>, and the amounts are finite and add up, in absolute value, to
  less than the overflow threshold, each entry of the output keeps a number under
  every category key, and its total, read as \<open>entry.total || 0\<close>, is the sum of these
  numbers.
\<close>

lemma fold_numeric_sum:
  "list_all (\<lambda>kv. \<exists>x. 0 \<le> x \<and> snd kv = JNum (Fin x)) xs \<Longrightarrow> 0 \<le> a \<Longrightarrow>
   a + sum_list (map (\<lambda>kv. numVal (numOf (snd kv))) xs) < overflowBound \<Longrightarrow>
   fold (\<lambda>kv acc. js_add acc (numOf (snd kv))) xs (Fin a)
     = Fin (a + sum_list (map (\<lambda>kv. numVal (numOf (snd kv))) xs))"
proof (induction xs arbitrary: a)
  case Nil
  show ?case by simp
next
  case (Cons kv xs)
  from Cons.prems(1) obtain x where x: "0 \<le> x" "snd kv = JNum (Fin x)" by auto
  from Cons.prems(1) have rest: "list_all (\<lambda>kv. \<exists>x. 0 \<le> x \<and> snd kv = JNum (Fin x)) xs"
    by simp
  have "list_all (\<lambda>kv. 0 \<le> numVal (numOf (snd kv))) xs"
    using rest by (auto simp: list_all_iff numVal_def)
  then have nonneg: "0 \<le> sum_list (map (\<lambda>kv. numVal (numOf (snd kv))) xs)"
    by (intro sum_list_nonneg) (auto simp: list_all_iff)
  from Cons.prems(3) x(2)
  have bound: "a + x + sum_list (map (\<lambda>kv. numVal (numOf (snd kv))) xs) < overflowBound"
    by (simp add: numVal_def add.assoc)
  from Cons.prems(2) x(1) have ax: "0 \<le> a + x" by simp
  with bound nonneg have "\<bar>a + x\<bar> < overflowBound" by linarith
  then have step: "overflow (a + x) = Fin (a + x)" by (rule overflow_Fin)
  from Cons.IH [OF rest ax bound] show ?case
    by (simp add: x(2) step numVal_def add.assoc)
qed

lemma categoryTotals_catSum:
  assumes "numericEntry e" "catSum e < overflowBound"
  shows "categoryTotals e = Fin (catSum e)"
proof -
  have "list_all (\<lambda>kv. \<exists>x. 0 \<le> x \<and> snd kv = JNum (Fin x))
          (filter (\<lambda>kv. categoryKey (fst kv)) e)"
    using assms(1) by (auto simp: numericEntry_def list_all_iff categoryKey_def)
  from fold_numeric_sum [OF this, of 0] assms(2) show ?thesis
    by (simp add: categoryTotals_def catSum_def)
qed

lemma catSum_Cons:
  "catSum (kv # e) = (if categoryKey (fst kv) then numVal (numOf (snd kv)) else 0) + catSum e"
  by (simp add: catSum_def)

lemma catSum_absent:
  "k \<notin> set (map fst e) \<Longrightarrow> categoryKey k \<Longrightarrow>
   catSum (assoc_set e k v) = catSum e + numVal (numOf v)"
  by (induction e) (auto simp: catSum_Cons catSum_def)

lemma catSum_present:
  "distinct (map fst e) \<Longrightarrow> map_of e k = Some old \<Longrightarrow> categoryKey k \<Longrightarrow>
   catSum (assoc_set e k v) = catSum e - numVal (numOf old) + numVal (numOf v)"
proof (induction e)
  case Nil
  then show ?case by simp
next
  case (Cons p e)
  obtain k' v' where p: "p = (k', v')" by (cases p)
  show ?case
  proof (cases "k' = k")
    case True
    with Cons.prems p show ?thesis by (simp add: catSum_Cons)
  next
    case False
    with Cons.prems p have "map_of e k = Some old" "distinct (map fst e)" by simp_all
    from Cons.IH [OF this(2,1) Cons.prems(3)] False p show ?thesis
      by (simp add: catSum_Cons)
  qed
qed

lemma catSum_other: "\<not> categoryKey k \<Longrightarrow> catSum (assoc_set e k v) = catSum e"
  by (induction e) (auto simp: catSum_Cons catSum_def)

lemma numericEntry_value:
  assumes "numericEntry e" "(k, v) \<in> set e" "k \<noteq> ''name''"
  shows "\<exists>x. 0 \<le> x \<and> v = JNum (Fin x)"
  using assms by (auto simp: numericEntry_def list_all_iff)

lemma catSum_nonneg: "numericEntry e \<Longrightarrow> 0 \<le> catSum e"
proof (induction e)
  case Nil
  show ?case by (simp add: catSum_def)
next
  case (Cons kv e)
  from Cons.prems have rest: "numericEntry e" by (simp add: numericEntry_def)
  have "0 \<le> (if categoryKey (fst kv) then numVal (numOf (snd kv)) else 0)"
    using Cons.prems by (auto simp: numericEntry_def categoryKey_def numVal_def)
  with Cons.IH [OF rest] show ?case by (simp add: catSum_Cons)
qed

lemma value_le_catSum:
  "numericEntry e \<Longrightarrow> (k, JNum (Fin x)) \<in> set e \<Longrightarrow> categoryKey k \<Longrightarrow> x \<le> catSum e"
proof (induction e)
  case Nil
  then show ?case by simp
next
  case (Cons kv e)
  from Cons.prems(1) have rest: "numericEntry e" by (simp add: numericEntry_def)
  have head: "0 \<le> (if categoryKey (fst kv) then numVal (numOf (snd kv)) else 0)"
    using Cons.prems(1) by (auto simp: numericEntry_def categoryKey_def numVal_def)
  show ?case
  proof (cases "kv = (k, JNum (Fin x))")
    case True
    with Cons.prems(3) catSum_nonneg [OF rest] show ?thesis
      by (simp add: catSum_Cons numVal_def)
  next
    case False
    with Cons.prems(2) have "(k, JNum (Fin x)) \<in> set e" by simp
    from Cons.IH [OF rest this Cons.prems(3)] head show ?thesis
      by (simp add: catSum_Cons)
  qed
qed

lemma numericEntry_assoc_set:
  "numericEntry e \<Longrightarrow> 0 \<le> x \<Longrightarrow> numericEntry (assoc_set e k (JNum (Fin x)))"
  by (induction e) (auto simp: numericEntry_def)

lemma numeric_lookup:
  assumes "numericEntry e" "k \<noteq> ''name''" "\<not> inheritedName k"
  shows "\<exists>x. 0 \<le> x \<and> or0 (getProp e k) = JNum (Fin x)
           \<and> (case map_of e k of None \<Rightarrow> x = 0 | Some old \<Rightarrow> x = numVal (numOf old))"
proof (cases "map_of e k")
  case None
  with assms(3) show ?thesis by (simp add: getProp_own or0_def)
next
  case (Some old)
  then have "(k, old) \<in> set e" by (rule map_of_SomeD)
  from numericEntry_value [OF assms(1) this assms(2)] obtain y where "0 \<le> y" "old = JNum (Fin y)"
    by blast
  with Some assms(3) show ?thesis by (simp add: getProp_own or0_def numVal_def)
qed

lemma distinct_assoc_set: "distinct (map fst e) \<Longrightarrow> distinct (map fst (assoc_set e k v))"
  by (simp add: keys_assoc_set)

lemma total_not_inherited: "\<not> inheritedName ''total''"
  by (simp add: inheritedName_def prototypeNames_def)

lemma addToEntry_ok:
  assumes ok: "entryOk b e" and cat: "categoryKey (category tx)"
    and own: "\<not> inheritedName (category tx)" and amt: "amount tx = Fin a"
    and bound: "b + \<bar>a\<bar> < overflowBound"
  shows "entryOk (b + \<bar>a\<bar>) (addToEntry rt tx e)"
proof -
  let ?c = "category tx"
  from ok have d: "distinct (map fst e)" and num: "numericEntry e"
    and tot: "bucketTotal e = Fin (catSum e)" and le: "catSum e \<le> b"
    by (simp_all add: entryOk_def)
  from cat have cn: "?c \<noteq> ''name''" and ct: "?c \<noteq> ''total''"
    by (simp_all add: categoryKey_def)
  from own have cp: "?c \<noteq> ''__proto__''"
    by (auto simp: inheritedName_def prototypeNames_def)
  from numeric_lookup [OF num cn own] obtain x where
    x: "0 \<le> x" "or0 (getProp e ?c) = JNum (Fin x)"
       "case map_of e ?c of None \<Rightarrow> x = 0 | Some old \<Rightarrow> x = numVal (numOf old)"
    by blast
  have xle: "x \<le> catSum e"
  proof (cases "map_of e ?c")
    case None
    with x(3) catSum_nonneg [OF num] show ?thesis by simp
  next
    case (Some old)
    then have mem: "(?c, old) \<in> set e" by (rule map_of_SomeD)
    from numericEntry_value [OF num mem cn] obtain y where y: "old = JNum (Fin y)" by blast
    with Some x(3) have "x = y" by (simp add: numVal_def)
    with value_le_catSum [OF num _ cat, of y] mem y show ?thesis by simp
  qed
  from x(1) xle le bound have "\<bar>x + \<bar>a\<bar>\<bar> < overflowBound" by linarith
  then have step1: "overflow (x + \<bar>a\<bar>) = Fin (x + \<bar>a\<bar>)" by (rule overflow_Fin)
  let ?e1 = "assoc_set e ?c (JNum (Fin (x + \<bar>a\<bar>)))"
  have d1: "distinct (map fst ?e1)" by (rule distinct_assoc_set [OF d])
  have num1: "numericEntry ?e1"
    using x(1) by (intro numericEntry_assoc_set [OF num]) simp
  have sum1: "catSum ?e1 = catSum e + \<bar>a\<bar>"
  proof (cases "map_of e ?c")
    case None
    then have "?c \<notin> set (map fst e)" by (simp add: map_of_eq_None_iff)
    from catSum_absent [OF this cat] None x(3) show ?thesis by (simp add: numVal_def)
  next
    case (Some old)
    from catSum_present [OF d Some cat] Some x(3) show ?thesis by (simp add: numVal_def)
  qed
  have same: "getProp ?e1 ''total'' = getProp e ''total''"
    using ct by (simp add: getProp_own total_not_inherited map_of_assoc_set)
  from numeric_lookup [OF num _ total_not_inherited] obtain t where
    t: "or0 (getProp e ''total'') = JNum (Fin t)" by auto
  with tot have t_sum: "t = catSum e" by (simp add: bucketTotal_def)
  from t_sum catSum_nonneg [OF num] le bound have "\<bar>t + \<bar>a\<bar>\<bar> < overflowBound" by linarith
  then have step2: "overflow (t + \<bar>a\<bar>) = Fin (t + \<bar>a\<bar>)" by (rule overflow_Fin)
  let ?e2 = "assoc_set ?e1 ''total'' (JNum (Fin (t + \<bar>a\<bar>)))"
  have e2: "addToEntry rt tx e = ?e2"
    by (simp add: addToEntry_def Let_def setProp_def cp x(2) same t amt step1 step2)
  have d2: "distinct (map fst ?e2)" by (rule distinct_assoc_set [OF d1])
  have num2: "numericEntry ?e2"
    using t_sum catSum_nonneg [OF num] by (intro numericEntry_assoc_set [OF num1]) simp
  have sum2: "catSum ?e2 = catSum e + \<bar>a\<bar>"
    using sum1 by (simp add: catSum_other categoryKey_def)
  have "bucketTotal ?e2 = Fin (t + \<bar>a\<bar>)"
    by (simp add: bucketTotal_def getProp_own total_not_inherited map_of_assoc_set or0_def)
  with t_sum sum2 have "bucketTotal ?e2 = Fin (catSum ?e2)" by simp
  with d2 num2 sum2 le show ?thesis by (simp add: e2 entryOk_def)
qed

lemma entryOk_mono: "entryOk b e \<Longrightarrow> b \<le> b' \<Longrightarrow> entryOk b' e"
  by (simp add: entryOk_def)

lemma entryOk_seed: "entryOk 0 [(''name'', JStr l)]"
  by (simp add: entryOk_def numericEntry_def bucketTotal_def catSum_def categoryKey_def or0_def
        getProp_own total_not_inherited)

lemma set_assoc_set: "set (assoc_set m k v) \<subseteq> insert (k, v) (set m)"
proof (induction m)
  case Nil
  show ?case by simp
next
  case (Cons p m)
  obtain k' v' where p: "p = (k', v')" by (cases p)
  show ?case
  proof (cases "k' = k")
    case True
    with p show ?thesis by auto
  next
    case False
    with p Cons.IH show ?thesis by auto
  qed
qed

lemma seedBuckets_ok: "\<forall>ke \<in> set (seedBuckets fmt points). entryOk 0 (snd ke)"
proof -
  have "\<forall>ke \<in> set m. entryOk 0 (snd ke) \<Longrightarrow>
      \<forall>ke \<in> set (fold (\<lambda>point dataMap.
          assoc_set dataMap (fmt point) [(''name'', JStr (fmt point))]) points m).
        entryOk 0 (snd ke)"
    for m
  proof (induction points arbitrary: m)
    case Nil
    then show ?case by simp
  next
    case (Cons p ps)
    have "\<forall>ke \<in> set (assoc_set m (fmt p) [(''name'', JStr (fmt p))]). entryOk 0 (snd ke)"
      using Cons.prems set_assoc_set [of m "fmt p" "[(''name'', JStr (fmt p))]"]
      by (auto simp: entryOk_seed)
    from Cons.IH [OF this] show ?case by simp
  qed
  from this [of "[]"] show ?thesis by (simp add: seedBuckets_def)
qed

lemma addToBucket_ok:
  assumes "\<forall>ke \<in> set m. entryOk b (snd ke)" "categoryKey (category tx)"
    and "\<not> inheritedName (category tx)" "amount tx = Fin a" "b + \<bar>a\<bar> < overflowBound"
    and "addToBucket rt fmt tx m = Inr m'"
  shows "\<forall>ke \<in> set m'. entryOk (b + \<bar>a\<bar>) (snd ke)"
proof -
  have old: "\<forall>ke \<in> set m. entryOk (b + \<bar>a\<bar>) (snd ke)"
    using assms(1) entryOk_mono [of b _ "b + \<bar>a\<bar>"] by simp
  show ?thesis
  proof (cases "parseDate rt (date tx)")
    case None
    with assms(6) show ?thesis by (simp add: addToBucket_def)
  next
    case (Some d)
    show ?thesis
    proof (cases "map_of m (fmt d)")
      case None
      with Some old assms(6) show ?thesis by (simp add: addToBucket_def)
    next
      case entry: (Some entry)
      then have "(fmt d, entry) \<in> set m" by (rule map_of_SomeD)
      with assms(1) have "entryOk b entry" by auto
      from addToEntry_ok [OF this assms(2,3,4,5)]
      have new: "entryOk (b + \<bar>a\<bar>) (addToEntry rt tx entry)" .
      from Some entry assms(6) have "m' = assoc_set m (fmt d) (addToEntry rt tx entry)"
        by (simp add: addToBucket_def)
      with new old set_assoc_set [of m "fmt d" "addToEntry rt tx entry"]
      show ?thesis by auto
    qed
  qed
qed

lemma forEachE_ok:
  "\<forall>ke \<in> set m. entryOk b (snd ke) \<Longrightarrow>
   \<forall>tx \<in> set txs. categoryKey (category tx) \<and> \<not> inheritedName (category tx)
      \<and> finiteNum (amount tx) \<Longrightarrow>
   b + absSum txs < overflowBound \<Longrightarrow>
   forEachE (addToBucket rt fmt) txs m = Inr m' \<Longrightarrow>
   \<forall>ke \<in> set m'. entryOk (b + absSum txs) (snd ke)"
proof (induction txs arbitrary: m b)
  case Nil
  then show ?case by (simp add: absSum_def)
next
  case (Cons tx txs)
  from Cons.prems(4) obtain m1 where
    m1: "addToBucket rt fmt tx m = Inr m1" "forEachE (addToBucket rt fmt) txs m1 = Inr m'"
    by (auto split: sum.splits)
  from Cons.prems(2) obtain a where a: "amount tx = Fin a"
    by (cases "amount tx") (auto simp: finiteNum_def)
  from Cons.prems(2) have c: "categoryKey (category tx)" "\<not> inheritedName (category tx)"
    by simp_all
  from a have sum: "absSum (tx # txs) = \<bar>a\<bar> + absSum txs"
    by (simp add: absSum_def numVal_def)
  with Cons.prems(3) absSum_nonneg [of txs] have small: "b + \<bar>a\<bar> < overflowBound" by linarith
  from addToBucket_ok [OF Cons.prems(1) c a small m1(1)]
  have inv: "\<forall>ke \<in> set m1. entryOk (b + \<bar>a\<bar>) (snd ke)" .
  from Cons.prems(3) sum have rest: "b + \<bar>a\<bar> + absSum txs < overflowBound" by simp
  from Cons.IH [OF inv _ rest m1(2)] Cons.prems(2) show ?case
    by (simp add: sum add.assoc)
qed

lemma bucket_totals_agree:
  assumes "\<forall>tx \<in> set txs. tx_type tx = Expense \<longrightarrow>
             categoryKey (category tx) \<and> \<not> inheritedName (category tx) \<and> finiteNum (amount tx)"
    and "absSum txs < overflowBound"
    and "spendingChartData rt period dateOffset txs = Inr out"
  shows "\<forall>e \<in> set out. \<exists>r. categoryTotals e = Fin r \<and> bucketTotal e = Fin r"
proof (cases "periodSetup rt period dateOffset")
  case None
  with assms(3) show ?thesis by (simp add: spendingChartData_def)
next
  case (Some c)
  let ?rel = "filter (relevantTx rt c) txs"
  from Some assms(3) obtain points m where
    m: "forEachE (addToBucket rt (formatLabel c)) ?rel (seedBuckets (formatLabel c) points) = Inr m"
       "out = map snd m"
    by (auto simp: spendingChartData_def split: sum.splits)
  have ok: "\<forall>tx \<in> set ?rel.
      categoryKey (category tx) \<and> \<not> inheritedName (category tx) \<and> finiteNum (amount tx)"
    using assms(1) by (auto simp: relevantTx_def split: if_splits option.splits)
  from absSum_filter [of "relevantTx rt c" txs] assms(2)
  have small: "0 + absSum ?rel < overflowBound" by simp
  from forEachE_ok [OF seedBuckets_ok ok small m(1)]
  have "\<forall>ke \<in> set m. entryOk (0 + absSum ?rel) (snd ke)" .
  then have inv: "\<forall>e \<in> set out. entryOk (absSum ?rel) e" by (simp add: m(2))
  show ?thesis
  proof
    fix e
    assume "e \<in> set out"
    with inv have e: "entryOk (absSum ?rel) e" by simp
    with small have "catSum e < overflowBound" by (simp add: entryOk_def)
    with e categoryTotals_catSum [of e] show "\<exists>r. categoryTotals e = Fin r \<and> bucketTotal e = Fin r"
      by (simp add: entryOk_def)
  qed
qed

text \<open>
  Claim C1 fails on the code where a category is named like a property the entry
  already has: a transaction of category \<open>total\<close> is added to the property \<open>total\<close>
  twice, once as its category and once as the bucket total. With an expense of 30 in
  category \<open>Food\<close> and one of 50 in category \<open>total\<close> in March, the March entry has
  the category sum 30 and the total 130.
\<close>

theorem bucket_total_key_collision:
  "spendingChartData rt_ex Y 0
     [tx_ex ''2024-03-05'' (- 30) ''Food'' Expense, tx_ex ''2024-03-20'' (- 50) ''total'' Expense] =
     Inr [[(''name'', JStr ''Jan'')], [(''name'', JStr ''Feb'')],
          [(''name'', JStr ''Mar''), (''Food'', JNum (Fin 30)), (''total'', JNum (Fin 130))],
          [(''name'', JStr ''Apr'')], [(''name'', JStr ''May'')], [(''name'', JStr ''Jun'')],
          [(''name'', JStr ''Jul'')], [(''name'', JStr ''Aug'')], [(''name'', JStr ''Sep'')],
          [(''name'', JStr ''Oct'')], [(''name'', JStr ''Nov'')], [(''name'', JStr ''Dec'')]]
   \<and> categoryTotals [(''name'', JStr ''Mar''), (''Food'', JNum (Fin 30)), (''total'', JNum (Fin 130))]
       = Fin 30
   \<and> bucketTotal [(''name'', JStr ''Mar''), (''Food'', JNum (Fin 30)), (''total'', JNum (Fin 130))]
       = Fin 130"
  by code_simp

section \<open>Properties of the flow series\<close>

text \<open>
  When every date can be read, the flow series has the twelve entries of the month
  names, and the entry of a month name is the zero entry with \<open>addToMonth\<close> applied for
  every transaction of that month name, in order, whatever its year; \<open>addToMonth\<close>
  changes one field, chosen by the type.
\<close>

lemma assoc_set_as_map:
  "distinct (map fst m) \<Longrightarrow> map_of m k = Some e0 \<Longrightarrow>
   assoc_set m k (f e0) = map (\<lambda>ke. (fst ke, if fst ke = k then f (snd ke) else snd ke)) m"
proof (induction m)
  case Nil
  then show ?case by simp
next
  case (Cons p m)
  obtain k' v' where p: "p = (k', v')" by (cases p)
  show ?case
  proof (cases "k' = k")
    case True
    with Cons.prems p have "k \<notin> set (map fst m)" "v' = e0" by auto
    then have "map (\<lambda>ke. (fst ke, if fst ke = k then f (snd ke) else snd ke)) m = m"
      by (intro map_idI) auto
    with True p \<open>v' = e0\<close> show ?thesis by simp
  next
    case False
    with Cons.prems p have "distinct (map fst m)" "map_of m k = Some e0" by simp_all
    from Cons.IH [OF this] False p show ?thesis by simp
  qed
qed

lemma flowStep_as_map:
  assumes "distinct (map fst m)" "parseDate rt (date tx) \<noteq> None"
  shows "flowStep rt tx m =
     Inr (map (\<lambda>ke. (fst ke, if fst ke = txLabel rt formatMMM tx
                              then addToMonth tx (snd ke) else snd ke)) m)"
proof -
  from assms(2) obtain d where d: "parseDate rt (date tx) = Some d" by auto
  then have l: "txLabel rt formatMMM tx = formatMMM d" by (simp add: txLabel_def)
  show ?thesis
  proof (cases "map_of m (formatMMM d)")
    case None
    then have "formatMMM d \<notin> set (map fst m)" by (simp add: map_of_eq_None_iff)
    then have "map (\<lambda>ke. (fst ke, if fst ke = formatMMM d
                              then addToMonth tx (snd ke) else snd ke)) m = m"
      by (intro map_idI) (auto simp: image_iff)
    with None d l show ?thesis by (simp add: flowStep_def)
  next
    case (Some e0)
    from assoc_set_as_map [OF assms(1) Some, of "addToMonth tx"] Some d l
    show ?thesis by (simp add: flowStep_def)
  qed
qed

lemma forEachE_flowStep:
  "distinct (map fst m) \<Longrightarrow> \<forall>tx \<in> set txs. parseDate rt (date tx) \<noteq> None \<Longrightarrow>
   forEachE (flowStep rt) txs m =
     Inr (map (\<lambda>ke. (fst ke, fold addToMonth
                 (filter (\<lambda>tx. txLabel rt formatMMM tx = fst ke) txs) (snd ke))) m)"
proof (induction txs arbitrary: m)
  case Nil
  show ?case by simp
next
  case (Cons tx txs)
  let ?m1 = "map (\<lambda>ke. (fst ke, if fst ke = txLabel rt formatMMM tx
                              then addToMonth tx (snd ke) else snd ke)) m"
  from Cons.prems have step: "flowStep rt tx m = Inr ?m1"
    by (intro flowStep_as_map) simp_all
  have d1: "distinct (map fst ?m1)"
    using Cons.prems(1) by (simp add: comp_def)
  from Cons.prems(2) have "\<forall>tx \<in> set txs. parseDate rt (date tx) \<noteq> None" by simp
  from Cons.IH [OF d1 this] step show ?case
    by (simp add: comp_def)
qed

lemma seedMonths_distinct:
  "distinct (map formatMMM yearMonths) \<Longrightarrow>
   seedMonths yearMonths = map (\<lambda>k. (k, zeroMonth k)) (map formatMMM yearMonths)"
  using fold_assoc_set_fresh [of "[]" formatMMM yearMonths "\<lambda>p. zeroMonth (formatMMM p)"]
  by (simp add: seedMonths_def zeroMonth_def comp_def)

lemma flow_by_month_name:
  assumes "\<forall>tx \<in> set txs. parseDate rt (date tx) \<noteq> None"
  shows "flowOverTimeData rt txs =
     Inr (map (\<lambda>k. fold addToMonth (filter (\<lambda>tx. txLabel rt formatMMM tx = k) txs) (zeroMonth k))
            monthNames)"
proof -
  let ?pts = "monthsFrom ((now rt)\<lparr>month := 0, day := 1, time_ms := 0\<rparr>) 12"
  from year_points [of "now rt"] have
    pts: "eachMonthOfInterval (startOfYear (now rt)) (endOfYear (now rt)) = Inr ?pts"
    and names: "map formatMMM ?pts = monthNames"
    by simp_all
  have "distinct (map formatMMM ?pts)"
    unfolding names by (rule distinct_monthNames)
  from seedMonths_distinct [OF this]
  have seed: "seedMonths ?pts = map (\<lambda>k. (k, zeroMonth k)) monthNames"
    unfolding names .
  have d: "distinct (map fst (seedMonths ?pts))"
    unfolding seed using distinct_monthNames by (simp add: comp_def)
  have "forEachE (flowStep rt) txs (seedMonths ?pts) =
      Inr (map (\<lambda>k. (k, fold addToMonth
                 (filter (\<lambda>tx. txLabel rt formatMMM tx = k) txs) (zeroMonth k))) monthNames)"
    unfolding forEachE_flowStep [OF d assms] unfolding seed by (simp add: comp_def)
  then show ?thesis
    unfolding flowOverTimeData_def pts by (simp add: comp_def)
qed

text \<open>
  Claim C3 fails on the code for transactions of other years: the month entries are
  keyed by the month name alone and no test of the year is made, so an expense of 50
  dated 2023-03-10 is added to the entry \<open>Mar\<close> of the year 2024.
\<close>

theorem flow_counts_other_years:
  "flowOverTimeData rt_ex [tx_ex ''2023-03-10'' (- 50) ''Food'' Expense] =
     Inr [\<lparr>name = ''Jan'', income = Fin 0, expense = Fin 0, investment = Fin 0\<rparr>,
          \<lparr>name = ''Feb'', income = Fin 0, expense = Fin 0, investment = Fin 0\<rparr>,
          \<lparr>name = ''Mar'', income = Fin 0, expense = Fin 50, investment = Fin 0\<rparr>,
          \<lparr>name = ''Apr'', income = Fin 0, expense = Fin 0, investment = Fin 0\<rparr>,
          \<lparr>name = ''May'', income = Fin 0, expense = Fin 0, investment = Fin 0\<rparr>,
          \<lparr>name = ''Jun'', income = Fin 0, expense = Fin 0, investment = Fin 0\<rparr>,
          \<lparr>name = ''Jul'', income = Fin 0, expense = Fin 0, investment = Fin 0\<rparr>,
          \<lparr>name = ''Aug'', income = Fin 0, expense = Fin 0, investment = Fin 0\<rparr>,
          \<lparr>name = ''Sep'', income = Fin 0, expense = Fin 0, investment = Fin 0\<rparr>,
          \<lparr>name = ''Oct'', income = Fin 0, expense = Fin 0, investment = Fin 0\<rparr>,
          \<lparr>name = ''Nov'', income = Fin 0, expense = Fin 0, investment = Fin 0\<rparr>,
          \<lparr>name = ''Dec'', income = Fin 0, expense = Fin 0, investment = Fin 0\<rparr>]
   \<and> year (now rt_ex) = 2024
   \<and> map_option year (parseDate rt_ex ''2023-03-10'') = Some 2023"
  by code_simp

end
